theory Spec2Isabelle
  imports
    Main
    "HOL-Library.Char_ord"
    "HOL-Library.List_Lexorder"
begin

section \<open>Python strings\<close>

text \<open>
  A Python \<open>str\<close> is modelled as a \<open>string\<close> (a list of \<open>char\<close>), read as ASCII
  text. The string methods below are the ASCII restriction of Python's: a character that is
  not in one of the tables is neither whitespace, nor a letter, nor a digit, and \<open>lower\<close>
  leaves it unchanged. Comparison of strings (\<open>sorted\<close>) is lexicographic by character code.
  One table goes beyond ASCII: \<open>str.isdigit\<close> also accepts the superscript digits, which
  \<open>int\<close> refuses, and that decides whether the program raises.
\<close>

text \<open>The exceptions of the program that nothing catches: \<open>ValueError\<close>, raised by
  \<open>int\<close>.\<close>

datatype error = ValueError

definition ascii_upper :: string where
  "ascii_upper = ''ABCDEFGHIJKLMNOPQRSTUVWXYZ''"

definition ascii_lower :: string where
  "ascii_lower = ''abcdefghijklmnopqrstuvwxyz''"

definition ascii_digits :: string where
  "ascii_digits = ''0123456789''"

text \<open>\<open>str.isspace\<close> on ASCII: tab, line feed, vertical tab, form feed, carriage return,
  the four separators 0x1C..0x1F, and space.\<close>

definition is_space :: "char \<Rightarrow> bool" where
  "is_space c \<longleftrightarrow> c \<in> set [CHR 0x09, CHR 0x0A, CHR 0x0B, CHR 0x0C, CHR 0x0D,
                             CHR 0x1C, CHR 0x1D, CHR 0x1E, CHR 0x1F, CHR 0x20]"

text \<open>The superscript digits two, three and one (code points 0xB2, 0xB3, 0xB9).\<close>

definition superscript_digits :: string where
  "superscript_digits = [CHR 0xB2, CHR 0xB3, CHR 0xB9]"

text \<open>\<open>str.isdecimal\<close> and \<open>str.isdigit\<close> on one character.\<close>

definition is_decimal :: "char \<Rightarrow> bool" where
  "is_decimal c \<longleftrightarrow> c \<in> set ascii_digits"

definition is_digit :: "char \<Rightarrow> bool" where
  "is_digit c \<longleftrightarrow> is_decimal c \<or> c \<in> set superscript_digits"

definition is_alnum :: "char \<Rightarrow> bool" where
  "is_alnum c \<longleftrightarrow> c \<in> set (ascii_lower @ ascii_upper @ ascii_digits)"

text \<open>The regular expression class \<open>\w\<close>: letters, digits and the underscore.\<close>

definition is_word :: "char \<Rightarrow> bool" where
  "is_word c \<longleftrightarrow> is_alnum c \<or> c = CHR ''_''"

definition lower_chr :: "char \<Rightarrow> char" where
  "lower_chr c = (case map_of (zip ascii_upper ascii_lower) c of Some d \<Rightarrow> d | None \<Rightarrow> c)"

definition py_lower :: "string \<Rightarrow> string" where
  "py_lower s = map lower_chr s"

definition py_strip :: "string \<Rightarrow> string" where
  "py_strip s = rev (dropWhile is_space (rev (dropWhile is_space s)))"

definition startswith :: "string \<Rightarrow> string \<Rightarrow> bool" where
  "startswith s p \<longleftrightarrow> take (length p) s = p"

definition endswith :: "string \<Rightarrow> string \<Rightarrow> bool" where
  "endswith s p \<longleftrightarrow> length p \<le> length s \<and> drop (length s - length p) s = p"

text \<open>\<open>s.startswith(t)\<close> for a tuple \<open>t\<close> of prefixes.\<close>

definition startswith_any :: "string \<Rightarrow> string list \<Rightarrow> bool" where
  "startswith_any s ps \<longleftrightarrow> list_ex (startswith s) ps"

text \<open>\<open>p in s\<close> for strings: \<open>p\<close> occurs in \<open>s\<close> as a substring.\<close>

fun contains :: "string \<Rightarrow> string \<Rightarrow> bool" where
  "contains [] p = (p = [])"
| "contains (c # cs) p = (startswith (c # cs) p \<or> contains cs p)"

text \<open>\<open>sep.join(xs)\<close>.\<close>

fun join :: "string \<Rightarrow> string list \<Rightarrow> string" where
  "join sep [] = []"
| "join sep [x] = x"
| "join sep (x # y # ys) = x @ sep @ join sep (y # ys)"

text \<open>\<open>str.isdigit\<close>: non-empty and digits only.\<close>

definition isdigit :: "string \<Rightarrow> bool" where
  "isdigit s \<longleftrightarrow> s \<noteq> [] \<and> list_all is_digit s"

definition digit_val :: "char \<Rightarrow> int" where
  "digit_val c = (case map_of (zip ascii_digits [0, 1, 2, 3, 4, 5, 6, 7, 8, 9]) c of
                    Some d \<Rightarrow> d | None \<Rightarrow> 0)"

text \<open>The value in base 10 of a string of decimal digits.\<close>

definition int_of_digits :: "string \<Rightarrow> int" where
  "int_of_digits s = foldl (\<lambda>acc c. 10 * acc + digit_val c) 0 s"

text \<open>The most digits \<open>int\<close> converts: \<open>sys.get_int_max_str_digits()\<close>, which is 4300
  unless the interpreter is configured otherwise (CPython 3.11 and later).\<close>

definition int_max_str_digits :: nat where
  "int_max_str_digits = 4300"

text \<open>
  \<open>int(s)\<close> for a string that passes \<open>isdigit\<close>, the only strings the source converts. It
  raises \<open>ValueError\<close> for a string that holds a superscript digit and for one of more
  than \<open>int_max_str_digits\<close> digits (leading zeros count); otherwise it is the value in
  base 10.
\<close>

definition py_int :: "string \<Rightarrow> error + int" where
  "py_int s =
     (if s \<noteq> [] \<and> list_all is_decimal s \<and> length s \<le> int_max_str_digits
      then Inr (int_of_digits s) else Inl ValueError)"

fun digits_of :: "nat \<Rightarrow> string" where
  "digits_of n = (if n < 10 then [ascii_digits ! n]
                  else digits_of (n div 10) @ [ascii_digits ! (n mod 10)])"

declare digits_of.simps [simp del]

text \<open>\<open>str(i)\<close> for an integer.\<close>

definition str_int :: "int \<Rightarrow> string" where
  "str_int i = (if i < 0 then CHR ''-'' # digits_of (nat (- i)) else digits_of (nat i))"

section \<open>Evidence documents\<close>

text \<open>
  The value \<open>json.loads\<close> returns. Python's \<open>None\<close> is \<open>JNull\<close>; \<open>True\<close> and \<open>False\<close>
  are \<open>JBool\<close> (in Python they are also instances of \<open>int\<close>); a float is held as the text
  \<open>str\<close> gives for it, which is all this module does with a float; a dict is the list of
  its items in insertion order.
\<close>

datatype json =
    JNull
  | JBool bool
  | JInt int
  | JFloat string
  | JStr string
  | JList "json list"
  | JDict "(string \<times> json) list"

text \<open>\<open>d.get(k)\<close>: the value stored under \<open>k\<close>, \<open>None\<close> when there is none.\<close>

definition dict_get :: "(string \<times> json) list \<Rightarrow> string \<Rightarrow> json" where
  "dict_get kvs k = (case map_of kvs k of None \<Rightarrow> JNull | Some v \<Rightarrow> v)"

text \<open>\<open>ensure_text\<close> is applied to strings and numbers only; the text \<open>str\<close> gives for a
  list or a dict is not modelled.\<close>

definition ensure_text :: "json \<Rightarrow> string" where
  "ensure_text v = (case v of
       JStr s \<Rightarrow> s
     | JInt i \<Rightarrow> str_int i
     | JBool b \<Rightarrow> (if b then ''True'' else ''False'')
     | JFloat r \<Rightarrow> r
     | JNull \<Rightarrow> ''None''
     | _ \<Rightarrow> [])"

text \<open>The walker and \<open>deep_get\<close> recurse on the document; the depth the interpreter allows
  is not part of the model.\<close>

fun walk_all_values :: "json \<Rightarrow> json list" where
  "walk_all_values (JDict kvs) = concat (map (\<lambda>(k, v). JStr k # walk_all_values v) kvs)"
| "walk_all_values (JList vs) = concat (map walk_all_values vs)"
| "walk_all_values v = [v]"

fun deep_get :: "json \<Rightarrow> string list \<Rightarrow> json" where
  "deep_get cur [] = cur"
| "deep_get (JDict kvs) (k # ks) =
     (case map_of kvs k of None \<Rightarrow> JNull | Some v \<Rightarrow> deep_get v ks)"
| "deep_get _ (k # ks) = JNull"

section \<open>The job-identifier recognizer\<close>

definition LIKELY_JOB_PREFIX :: "string list" where
  "LIKELY_JOB_PREFIX = [''d0'', ''c0'']"

text \<open>
  \<open>JOB_ID_TOKEN_RE\<close> is \<^verbatim>\<open>\b[a-z0-9]{10,40}\b\<close> compiled with \<open>IGNORECASE\<close>.
  \<open>is_tok_char\<close> is its character class under that flag.
\<close>

definition is_tok_char :: "char \<Rightarrow> bool" where
  "is_tok_char c \<longleftrightarrow> lower_chr c \<in> set (ascii_lower @ ascii_digits)"

text \<open>
  One match attempt of the pattern at the current position; \<open>prev_word\<close> says whether the
  character before the position is a word character (\<open>False\<close> at the start of the text).
  The opening \<^verbatim>\<open>\b\<close> needs a non-word character (or the start) before a class
  character. The closing \<^verbatim>\<open>\b\<close> needs a non-word character (or the end) after
  the last class character taken: every class character is a word character, so of the
  lengths 40 down to 10 that the greedy repetition tries, only the whole run of class
  characters can end at a boundary, and a run longer than 40 matches nothing.
\<close>

definition match_here :: "bool \<Rightarrow> string \<Rightarrow> string option" where
  "match_here prev_word s =
     (let run = takeWhile is_tok_char s; rest = dropWhile is_tok_char s in
      if \<not> prev_word \<and> 10 \<le> length run \<and> length run \<le> 40
         \<and> (case rest of [] \<Rightarrow> True | r # _ \<Rightarrow> \<not> is_word r)
      then Some run else None)"

lemma match_here_length: "match_here prev s = Some tok \<Longrightarrow> 10 \<le> length tok \<and> length tok \<le> 40"
  by (auto simp: match_here_def Let_def split: if_splits)

text \<open>
  \<open>JOB_ID_TOKEN_RE.findall\<close>: the matches from left to right, without overlap; after a
  match the search goes on at its end, otherwise one character further.
\<close>

function findall_tokens :: "bool \<Rightarrow> string \<Rightarrow> string list" where
  "findall_tokens prev [] = []"
| "findall_tokens prev (c # cs) =
     (case match_here prev (c # cs) of
        Some tok \<Rightarrow> tok # findall_tokens True (drop (length tok) (c # cs))
      | None \<Rightarrow> findall_tokens (is_word c) cs)"
  by pat_completeness auto
termination
proof (relation "measure (\<lambda>(prev, s). length s)")
  fix prev :: bool and c :: char and cs :: string and tok :: string
  assume "match_here prev (c # cs) = Some tok"
  then have "10 \<le> length tok" by (simp add: match_here_length)
  then show "((True, drop (length tok) (c # cs)), (prev, c # cs)) \<in> measure (\<lambda>(prev, s). length s)"
    by simp
qed simp_all

text \<open>The loop that keeps the first occurrence of each string; \<open>seen\<close> of the source is
  the set of the strings in \<open>out\<close>.\<close>

fun dedupe :: "string list \<Rightarrow> string list \<Rightarrow> string list" where
  "dedupe out [] = out"
| "dedupe out (x # xs) = (if x \<in> set out then dedupe out xs else dedupe (out @ [x]) xs)"

definition extract_job_ids_from_text :: "string \<Rightarrow> string list" where
  "extract_job_ids_from_text text =
     (let cands = findall_tokens False (py_lower text);
          ids = filter (\<lambda>c. startswith_any c LIKELY_JOB_PREFIX \<and> 12 \<le> length c) cands
      in dedupe [] ids)"

text \<open>Step 1 of \<open>extract_job_ids\<close>: the direct keys holding a string, then the direct keys
  holding a list, of which the strings are taken.\<close>

definition direct_ids :: "json \<Rightarrow> string list" where
  "direct_ids obj = (case obj of
       JDict kvs \<Rightarrow>
         concat (map (\<lambda>k. case dict_get kvs k of JStr s \<Rightarrow> [s] | _ \<Rightarrow> [])
                   [''job_id'', ''jobId'', ''runtime_job_id''])
         @ concat (map (\<lambda>k. case dict_get kvs k of
                               JList xs \<Rightarrow> concat (map (\<lambda>x. case x of JStr s \<Rightarrow> [s] | _ \<Rightarrow> []) xs)
                             | _ \<Rightarrow> [])
                   [''job_ids'', ''jobIds'', ''jobs'', ''ibm_job_ids''])
     | _ \<Rightarrow> [])"

definition nested_paths :: "string list list" where
  "nested_paths =
     [[''execution_metadata'', ''job_id''],
      [''execution_metadata'', ''jobId''],
      [''proof'', ''execution_metadata'', ''job_id''],
      [''proof'', ''execution_metadata'', ''jobId''],
      [''ibm'', ''job_id''],
      [''ibm'', ''jobId'']]"

text \<open>Step 2: the nested key paths holding a string.\<close>

definition nested_ids :: "json \<Rightarrow> string list" where
  "nested_ids obj =
     concat (map (\<lambda>p. case deep_get obj p of JStr s \<Rightarrow> [s] | _ \<Rightarrow> []) nested_paths)"

text \<open>\<open>isinstance(v, (str, int, float))\<close>; a \<open>bool\<close> is an \<open>int\<close>.\<close>

fun is_str_int_float :: "json \<Rightarrow> bool" where
  "is_str_int_float (JStr _) = True"
| "is_str_int_float (JInt _) = True"
| "is_str_int_float (JBool _) = True"
| "is_str_int_float (JFloat _) = True"
| "is_str_int_float _ = False"

text \<open>Step 3: the text that is scanned, every scalar leaf and key on a line of its own.\<close>

definition all_text :: "json \<Rightarrow> string" where
  "all_text obj = join [CHR 0x0A] (map ensure_text (filter is_str_int_float (walk_all_values obj)))"

text \<open>The closing loop of \<open>extract_job_ids\<close>: strip, drop the empty, fold the case, keep
  what starts with a recognized prefix, once.\<close>

fun normalize_dedupe :: "string list \<Rightarrow> string list \<Rightarrow> string list" where
  "normalize_dedupe out [] = out"
| "normalize_dedupe out (x # xs) =
     (let x' = py_strip x in
      if x' = [] then normalize_dedupe out xs
      else let xlow = py_lower x' in
        if \<not> startswith_any xlow LIKELY_JOB_PREFIX then normalize_dedupe out xs
        else if xlow \<in> set out then normalize_dedupe out xs
        else normalize_dedupe (out @ [xlow]) xs)"

definition extract_job_ids :: "json \<Rightarrow> string list" where
  "extract_job_ids obj =
     normalize_dedupe []
       (direct_ids obj @ nested_ids obj @ extract_job_ids_from_text (all_text obj))"

section \<open>The other field extractors\<close>

text \<open>A loop that returns at the first hit and falls through when there is none.\<close>

fun first_some :: "('a \<Rightarrow> 'b option) \<Rightarrow> 'a list \<Rightarrow> 'b option" where
  "first_some f [] = None"
| "first_some f (x # xs) = (case f x of Some y \<Rightarrow> Some y | None \<Rightarrow> first_some f xs)"

text \<open>The test \<open>isinstance(v, str) and v.strip()\<close> with the value \<open>v.strip()\<close> that is
  returned when it holds.\<close>

definition nonblank_str :: "json \<Rightarrow> string option" where
  "nonblank_str v = (case v of
       JStr s \<Rightarrow> (if py_strip s \<noteq> [] then Some (py_strip s) else None)
     | _ \<Rightarrow> None)"

definition backend_candidates :: "string list list" where
  "backend_candidates =
     [[''backend''],
      [''hardware'', ''backend''],
      [''execution_metadata'', ''backend''],
      [''proof'', ''execution_metadata'', ''backend''],
      [''ibm'', ''backend''],
      [''summary'', ''backend'']]"

text \<open>The test \<open>isinstance(v, str) and v.startswith("ibm_")\<close> of the scan of the leaves,
  with the value \<open>v\<close> that is returned when it holds.\<close>

definition ibm_leaf :: "json \<Rightarrow> string option" where
  "ibm_leaf v = (case v of
       JStr s \<Rightarrow> (if startswith s ''ibm_'' then Some s else None)
     | _ \<Rightarrow> None)"

definition extract_backend :: "json \<Rightarrow> string option" where
  "extract_backend obj =
     (case first_some (\<lambda>p. nonblank_str (deep_get obj p)) backend_candidates of
        Some b \<Rightarrow> Some b
      | None \<Rightarrow> first_some ibm_leaf (walk_all_values obj))"

definition shots_candidates :: "string list list" where
  "shots_candidates =
     [[''shots''],
      [''summary'', ''shots''],
      [''execution_metadata'', ''shots''],
      [''proof'', ''execution_metadata'', ''shots''],
      [''ibm'', ''shots'']]"

text \<open>The test \<open>isinstance(v, int) and v > 0\<close> with the value returned when it holds:
  the object itself, which is \<open>True\<close> when \<open>v\<close> is \<open>True\<close>.\<close>

definition positive_int :: "json \<Rightarrow> json option" where
  "positive_int v = (case v of
       JInt i \<Rightarrow> (if i > 0 then Some (JInt i) else None)
     | JBool b \<Rightarrow> (if b then Some (JBool True) else None)
     | _ \<Rightarrow> None)"

text \<open>
  The two tests of the candidate loop of \<open>extract_shots\<close>, in the source's order, on the
  value at one location: \<open>None\<close> when neither holds and the loop goes on,
  \<open>Some (Inr r)\<close> when the loop returns \<open>r\<close>, \<open>Some (Inl e)\<close> when \<open>int(v)\<close> raises \<open>e\<close>.
\<close>

definition shots_at :: "json \<Rightarrow> (error + json) option" where
  "shots_at v = (case positive_int v of
       Some r \<Rightarrow> Some (Inr r)
     | None \<Rightarrow> (case v of
                   JStr s \<Rightarrow> (if isdigit s then Some (map_sum id JInt (py_int s)) else None)
                 | _ \<Rightarrow> None))"

text \<open>\<open>extract_shots\<close> returns a shot count or \<open>None\<close>, or raises what \<open>int(v)\<close> raises at
  the first candidate location that holds a string of digits.\<close>

definition extract_shots :: "json \<Rightarrow> error + json option" where
  "extract_shots obj =
     (case first_some (\<lambda>p. shots_at (deep_get obj p)) shots_candidates of
        Some (Inl e) \<Rightarrow> Inl e
      | Some (Inr r) \<Rightarrow> Inr (Some r)
      | None \<Rightarrow> Inr (case obj of
          JDict kvs \<Rightarrow>
            first_some (\<lambda>k. case dict_get kvs k of
                              JList items \<Rightarrow>
                                first_some (\<lambda>item. positive_int (deep_get item [''shots''])) items
                            | _ \<Rightarrow> None)
              [''runs'', ''results'', ''jobs'', ''executions'']
        | _ \<Rightarrow> None))"

definition extract_timestamp :: "json \<Rightarrow> string option" where
  "extract_timestamp obj =
     (case (case obj of
              JDict kvs \<Rightarrow>
                first_some (\<lambda>k. nonblank_str (dict_get kvs k))
                  [''timestamp'', ''created_utc'', ''created'', ''time'', ''date'']
            | _ \<Rightarrow> None) of
        Some t \<Rightarrow> Some t
      | None \<Rightarrow>
          first_some (\<lambda>p. nonblank_str (deep_get obj p))
            [[''summary'', ''timestamp''],
             [''metadata'', ''timestamp''],
             [''execution_metadata'', ''timestamp'']])"

definition detect_evidence_group_id :: "json \<Rightarrow> string \<Rightarrow> string" where
  "detect_evidence_group_id obj fallback = (case obj of
       JDict kvs \<Rightarrow> (case nonblank_str (dict_get kvs ''evidence_group_id'') of
                      Some g \<Rightarrow> g
                    | None \<Rightarrow> fallback)
     | _ \<Rightarrow> fallback)"

section \<open>Files and records\<close>

text \<open>
  File names as \<open>pathlib\<close> reads them (CPython 3.8 to 3.13). \<open>rfind_dot\<close> is
  \<open>name.rfind('.')\<close>, with \<open>None\<close> for -1.
\<close>

definition rfind_dot :: "string \<Rightarrow> nat option" where
  "rfind_dot name =
     (if CHR ''.'' \<in> set name
      then Some (length name - 1 - length (takeWhile (\<lambda>c. c \<noteq> CHR ''.'') (rev name)))
      else None)"

definition py_suffix :: "string \<Rightarrow> string" where
  "py_suffix name = (case rfind_dot name of
       Some i \<Rightarrow> (if 0 < i \<and> i < length name - 1 then drop i name else [])
     | None \<Rightarrow> [])"

definition py_stem :: "string \<Rightarrow> string" where
  "py_stem name = (case rfind_dot name of
       Some i \<Rightarrow> (if 0 < i \<and> i < length name - 1 then take i name else name)
     | None \<Rightarrow> name)"

text \<open>
  One file of the evidence folder, as the collaborators hand it over: the components of
  its path below the folder, its SHA-256 digest (\<open>sha256_file\<close>), its size
  (\<open>stat().st_size\<close>), and what \<open>json.loads\<close> makes of its text, \<open>None\<close> when reading or
  parsing it raises.
\<close>

record evidence_file =
  parts :: "string list"
  digest :: string
  byte_size :: nat
  loaded :: "json option"

definition py_name :: "string list \<Rightarrow> string" where
  "py_name ps = (if ps = [] then [] else last ps)"

text \<open>\<open>str(file_path.relative_to(base_dir))\<close> on a POSIX system.\<close>

definition rel_path :: "string list \<Rightarrow> string" where
  "rel_path ps = (if ps = [] then ''.'' else join ''/'' ps)"

definition suffix_lower :: "evidence_file \<Rightarrow> string" where
  "suffix_lower p = py_lower (py_suffix (py_name (parts p)))"

definition stem :: "evidence_file \<Rightarrow> string" where
  "stem p = py_stem (py_name (parts p))"

text \<open>The dict \<open>build_entry\<close> returns: five keys are always set, four only when evidence
  was found (\<open>None\<close> is the key's absence). \<open>entry_file\<close> is the key \<open>file\<close>.\<close>

record entry =
  entry_file :: string
  sha256 :: string
  size_bytes :: nat
  git_commit :: string
  evidence_group_id :: string
  backend :: "string option"
  timestamp :: "string option"
  shots :: "json option"
  job_ids :: "string list option"

text \<open>The record of a file for which no metadata is extracted: \<open>obj\<close> is \<open>None\<close> or the
  empty dict.\<close>

definition bare_entry :: "evidence_file \<Rightarrow> string \<Rightarrow> entry" where
  "bare_entry file_path commit =
     \<lparr> entry_file = rel_path (parts file_path),
       sha256 = digest file_path,
       size_bytes = byte_size file_path,
       git_commit = commit,
       evidence_group_id = stem file_path,
       backend = None, timestamp = None, shots = None, job_ids = None \<rparr>"

text \<open>
  \<open>obj\<close> is a dict or \<open>None\<close>; \<open>if obj\<close> holds for a dict that is not empty. \<open>build_entry\<close>
  returns the record, or raises what \<open>extract_shots\<close> raises: it catches nothing.
\<close>

definition build_entry ::
  "evidence_file \<Rightarrow> (string \<times> json) list option \<Rightarrow> string \<Rightarrow> error + entry" where
  "build_entry file_path obj commit =
     (case obj of
        None \<Rightarrow> Inr (bare_entry file_path commit)
      | Some kvs \<Rightarrow>
          if kvs = [] then Inr (bare_entry file_path commit)
          else
            (let d = JDict kvs;
                 bk = extract_backend d;
                 ts = extract_timestamp d
             in case extract_shots d of
                  Inl e \<Rightarrow> Inl e
                | Inr sh \<Rightarrow>
                    (let ids = extract_job_ids d
                     in Inr \<lparr> entry_file = rel_path (parts file_path),
                              sha256 = digest file_path,
                              size_bytes = byte_size file_path,
                              git_commit = commit,
                              evidence_group_id = detect_evidence_group_id d (stem file_path),
                              backend = (if bk \<noteq> None \<and> bk \<noteq> Some [] then bk else None),
                              timestamp = (if ts \<noteq> None \<and> ts \<noteq> Some [] then ts else None),
                              shots = sh,
                              job_ids = (if ids \<noteq> [] then Some ids else None) \<rparr>)))"

section \<open>Manifest assembly\<close>

record manifest =
  schema_version :: int
  generated_utc :: string
  manifest_git_commit :: string
  evidence_sets :: "entry list"

text \<open>The files \<open>main\<close> works on: those whose suffix is \<open>.json\<close> or \<open>.md\<close> in any case,
  sorted as \<open>Path\<close> objects, that is by their components.\<close>

definition candidates :: "evidence_file list \<Rightarrow> evidence_file list" where
  "candidates files =
     sort_key parts (filter (\<lambda>p. suffix_lower p \<in> set [''.json'', ''.md'']) files)"

text \<open>The document \<open>main\<close> passes to \<open>build_entry\<close>.\<close>

definition load_obj :: "evidence_file \<Rightarrow> (string \<times> json) list option" where
  "load_obj p =
     (if suffix_lower p = ''.json''
      then (case loaded p of
              None \<Rightarrow> None
            | Some (JDict kvs) \<Rightarrow> Some kvs
            | Some obj0 \<Rightarrow> Some [(''_root'', obj0)])
      else None)"

text \<open>The loop of \<open>main\<close> over the files: the records in order, or what the first
  \<open>build_entry\<close> that raises raises, since the call is outside the \<open>try\<close>.\<close>

fun build_entries :: "string \<Rightarrow> evidence_file list \<Rightarrow> error + entry list" where
  "build_entries commit [] = Inr []"
| "build_entries commit (p # ps) =
     (case build_entry p (load_obj p) commit of
        Inl e \<Rightarrow> Inl e
      | Inr entry \<Rightarrow>
          (case build_entries commit ps of
             Inl e \<Rightarrow> Inl e
           | Inr entries \<Rightarrow> Inr (entry # entries)))"

text \<open>The manifest \<open>main\<close> builds, when no record raises.\<close>

definition main_manifest :: "string \<Rightarrow> string \<Rightarrow> evidence_file list \<Rightarrow> error + manifest" where
  "main_manifest generated commit files =
     (case build_entries commit (candidates files) of
        Inl e \<Rightarrow> Inl e
      | Inr entries \<Rightarrow>
          Inr \<lparr> schema_version = 2,
                generated_utc = generated,
                manifest_git_commit = commit,
                evidence_sets = entries \<rparr>)"

section \<open>The consistency checker\<close>

text \<open>
  \<open>main\<close> calls \<open>write_warnings_md\<close> on the manifest it has built. The first loop of
  \<open>write_warnings_md\<close>, over the records: the pair of the sets
  \<open>json_job_ids\<close> and \<open>dashboard_job_ids\<close>. \<open>read_text\<close> gives the text of the file of a
  record.
\<close>

fun collect_ids ::
  "(string \<Rightarrow> string) \<Rightarrow> entry list \<Rightarrow> string set \<times> string set \<Rightarrow> string set \<times> string set" where
  "collect_ids read_text [] acc = acc"
| "collect_ids read_text (e # es) (json_job_ids, dashboard_job_ids) =
     (let f = entry_file e;
          dashboard' =
            (if endswith (py_lower f) ''.md''
             then (let text = read_text f; ids = extract_job_ids_from_text text in
                   if contains (py_lower text) ''dashboard''
                   then dashboard_job_ids \<union> set ids else dashboard_job_ids)
             else dashboard_job_ids);
          json' =
            (case job_ids e of
               Some js \<Rightarrow> (if endswith (py_lower f) ''.json''
                           then json_job_ids \<union> set (map py_lower js) else json_job_ids)
             | None \<Rightarrow> json_job_ids)
      in collect_ids read_text es (json', dashboard'))"

text \<open>What \<open>write_warnings_md\<close> computes before it renders the report.\<close>

record warnings =
  missing_in_json :: "string list"
  missing_backend :: "string list"
  missing_shots :: "string list"
  missing_timestamp :: "string list"
  missing_job_ids :: "string list"

definition is_json_entry :: "entry \<Rightarrow> bool" where
  "is_json_entry e \<longleftrightarrow> endswith (py_lower (entry_file e)) ''.json''"

definition write_warnings_md :: "(string \<Rightarrow> string) \<Rightarrow> manifest \<Rightarrow> warnings" where
  "write_warnings_md read_text m =
     (let sets = evidence_sets m;
          (json_job_ids, dashboard_job_ids) = collect_ids read_text sets ({}, {})
      in \<lparr> missing_in_json =
             sorted_list_of_set {jid \<in> dashboard_job_ids. py_lower jid \<notin> json_job_ids},
           missing_backend = map entry_file (filter (\<lambda>e. is_json_entry e \<and> backend e = None) sets),
           missing_shots = map entry_file (filter (\<lambda>e. is_json_entry e \<and> shots e = None) sets),
           missing_timestamp = map entry_file (filter (\<lambda>e. is_json_entry e \<and> timestamp e = None) sets),
           missing_job_ids = map entry_file (filter (\<lambda>e. is_json_entry e \<and> job_ids e = None) sets) \<rparr>)"

text \<open>The candidate locations of \<open>extract_timestamp\<close>, in the order they are tried, and
  the strings a document holds at a list of locations.\<close>

definition timestamp_paths :: "string list list" where
  "timestamp_paths =
     [[''timestamp''], [''created_utc''], [''created''], [''time''], [''date''],
      [''summary'', ''timestamp''],
      [''metadata'', ''timestamp''],
      [''execution_metadata'', ''timestamp'']]"

definition strings_at :: "json \<Rightarrow> string list list \<Rightarrow> string list" where
  "strings_at obj ps = concat (map (\<lambda>p. case deep_get obj p of JStr s \<Rightarrow> [s] | _ \<Rightarrow> []) ps)"

text \<open>
  The two sets the cross-reference of the checker is about. A narrative document is a
  record of a file named \<open>.md\<close> whose text holds the marker word; its identifiers are those
  of the text scan. A structured record is a record of a file named \<open>.json\<close>; its
  identifiers are those of its \<open>job_ids\<close> key.
\<close>

definition is_dashboard_entry :: "(string \<Rightarrow> string) \<Rightarrow> entry \<Rightarrow> bool" where
  "is_dashboard_entry read_text e \<longleftrightarrow>
     endswith (py_lower (entry_file e)) ''.md''
     \<and> contains (py_lower (read_text (entry_file e))) ''dashboard''"

definition narrative_ids :: "(string \<Rightarrow> string) \<Rightarrow> entry list \<Rightarrow> string set" where
  "narrative_ids read_text es =
     (\<Union>e\<in>{e \<in> set es. is_dashboard_entry read_text e}.
        set (extract_job_ids_from_text (read_text (entry_file e))))"

definition structured_ids :: "entry list \<Rightarrow> string set" where
  "structured_ids es =
     (\<Union>e\<in>{e \<in> set es. is_json_entry e}. case job_ids e of Some js \<Rightarrow> set js | None \<Rightarrow> {})"

section \<open>Strings: basic facts\<close>

lemma lower_chr_idem: "lower_chr (lower_chr c) = lower_chr c"
  by (simp add: lower_chr_def ascii_upper_def ascii_lower_def)

lemma is_tok_char_alnum: "is_tok_char c = is_alnum c"
  by (auto simp: is_tok_char_def is_alnum_def lower_chr_def
      ascii_upper_def ascii_lower_def ascii_digits_def)

lemma alnum_not_space: "is_alnum c \<Longrightarrow> \<not> is_space c"
  unfolding is_alnum_def is_space_def ascii_upper_def ascii_lower_def ascii_digits_def
  by auto

lemma py_lower_idem: "py_lower (py_lower s) = py_lower s"
  by (simp add: py_lower_def lower_chr_idem)

lemma py_lower_fixed: "set x \<subseteq> set (py_lower t) \<Longrightarrow> py_lower x = x"
  unfolding py_lower_def
  by (rule map_idI) (auto simp: lower_chr_idem)

lemma py_lower_append: "py_lower (a @ b) = py_lower a @ py_lower b"
  by (simp add: py_lower_def)

lemma py_lower_Nil_iff: "py_lower s = [] \<longleftrightarrow> s = []"
  by (simp add: py_lower_def)

lemma dropWhile_none: "\<forall>c\<in>set s. \<not> P c \<Longrightarrow> dropWhile P s = s"
  by (cases s) auto

lemma py_strip_no_space: "\<forall>c\<in>set s. \<not> is_space c \<Longrightarrow> py_strip s = s"
  by (simp add: py_strip_def dropWhile_none)

section \<open>The recognizer: what a returned identifier looks like\<close>

lemma findall_tokens_shape:
  "x \<in> set (findall_tokens prev s) \<Longrightarrow>
     10 \<le> length x \<and> length x \<le> 40 \<and> (\<forall>c\<in>set x. is_tok_char c) \<and> set x \<subseteq> set s"
proof (induction prev s rule: findall_tokens.induct)
  case (1 prev)
  then show ?case by simp
next
  case (2 prev c cs)
  show ?case
  proof (cases "match_here prev (c # cs)")
    case None
    with 2 show ?thesis by auto
  next
    case (Some tok)
    have tok: "tok = takeWhile is_tok_char (c # cs)"
      using Some by (auto simp: match_here_def Let_def split: if_splits)
    from 2(3) Some have "x = tok \<or> x \<in> set (findall_tokens True (drop (length tok) (c # cs)))"
      by simp
    then show ?thesis
    proof
      assume "x = tok"
      then show ?thesis
        using match_here_length[OF Some] tok set_takeWhileD[of _ is_tok_char "c # cs"]
        by (metis subsetI)
    next
      assume "x \<in> set (findall_tokens True (drop (length tok) (c # cs)))"
      from 2(2)[OF Some this] show ?thesis
        using set_drop_subset[of "length tok" "c # cs"] by blast
    qed
  qed
qed

lemma set_dedupe: "set (dedupe out xs) = set out \<union> set xs"
  by (induction xs arbitrary: out) auto

text \<open>An identifier of the text scan: a lower-case token of 12 to 40 letters and digits
  that starts with a recognized prefix.\<close>

lemma text_id_shape:
  assumes "y \<in> set (extract_job_ids_from_text t)"
  shows "12 \<le> length y \<and> length y \<le> 40 \<and> list_all is_alnum y
         \<and> startswith_any y LIKELY_JOB_PREFIX \<and> py_lower y = y \<and> py_strip y = y"
proof -
  from assms have tok: "y \<in> set (findall_tokens False (py_lower t))"
    and pre: "startswith_any y LIKELY_JOB_PREFIX" and len: "12 \<le> length y"
    by (auto simp: extract_job_ids_from_text_def Let_def set_dedupe)
  from findall_tokens_shape[OF tok]
  have le: "length y \<le> 40" and cls: "\<forall>c\<in>set y. is_alnum c" and sub: "set y \<subseteq> set (py_lower t)"
    by (auto simp: is_tok_char_alnum)
  from cls have "py_strip y = y"
    by (intro py_strip_no_space) (auto dest: alnum_not_space)
  with len le cls pre py_lower_fixed[OF sub] show ?thesis
    by (simp add: list_all_iff)
qed

lemma normalize_dedupe_mem:
  "x \<in> set (normalize_dedupe out xs) \<Longrightarrow>
     x \<in> set out \<or>
     (\<exists>y\<in>set xs. py_strip y \<noteq> [] \<and> x = py_lower (py_strip y) \<and> startswith_any x LIKELY_JOB_PREFIX)"
proof (induction xs arbitrary: out)
  case Nil
  then show ?case by simp
next
  case (Cons a xs)
  let ?a = "py_lower (py_strip a)"
  show ?case
  proof (cases "py_strip a \<noteq> [] \<and> startswith_any ?a LIKELY_JOB_PREFIX \<and> ?a \<notin> set out")
    case True
    with Cons.prems have "x \<in> set (normalize_dedupe (out @ [?a]) xs)"
      by (simp add: Let_def)
    from Cons.IH[OF this] True show ?thesis by auto
  next
    case False
    with Cons.prems have "x \<in> set (normalize_dedupe out xs)"
      by (auto simp: Let_def split: if_splits)
    from Cons.IH[OF this] show ?thesis by auto
  qed
qed

text \<open>
  Claim C1, as stated, fails: the document \<open>{"job_id": "d0"}\<close> yields the identifier
  \<open>d0\<close>, which is shorter than 10 characters, and \<open>{"job_id": "d0-x"}\<close> yields \<open>d0-x\<close>, which
  is not made of letters and digits. The closing loop of \<open>extract_job_ids\<close> tests the
  prefix only.
\<close>

theorem extract_job_ids_short_counterexample:
  "''d0'' \<in> set (extract_job_ids (JDict [(''job_id'', JStr ''d0'')])) \<and> length ''d0'' < 10
   \<and> ''d0-x'' \<in> set (extract_job_ids (JDict [(''job_id'', JStr ''d0-x'')]))
   \<and> \<not> list_all is_alnum ''d0-x''"
  by code_simp

text \<open>
  Claim C1, amended: every identifier in the list returned by \<open>extract_job_ids\<close> is a
  non-empty case-folded string that begins with a recognized prefix; it is either the
  stripped and case-folded value of a direct key or nested key path, which is held to
  nothing more, or a token of 12 to 40 letters and digits found by the text scan.
\<close>

theorem extract_job_ids_accepted:
  assumes "x \<in> set (extract_job_ids obj)"
  shows "x \<noteq> [] \<and> py_lower x = x \<and> startswith_any x LIKELY_JOB_PREFIX \<and>
         ((\<exists>y\<in>set (direct_ids obj @ nested_ids obj). x = py_lower (py_strip y)) \<or>
          (12 \<le> length x \<and> length x \<le> 40 \<and> list_all is_alnum x))"
proof -
  let ?ids = "direct_ids obj @ nested_ids obj @ extract_job_ids_from_text (all_text obj)"
  from assms have "x \<in> set (normalize_dedupe [] ?ids)"
    by (simp add: extract_job_ids_def)
  from normalize_dedupe_mem[OF this]
  obtain y where mem: "y \<in> set ?ids"
    and ne: "py_strip y \<noteq> []" and x: "x = py_lower (py_strip y)"
    and pre: "startswith_any x LIKELY_JOB_PREFIX"
    by auto
  from mem have y: "y \<in> set (direct_ids obj @ nested_ids obj)
                     \<or> y \<in> set (extract_job_ids_from_text (all_text obj))"
    by auto
  have basic: "x \<noteq> [] \<and> py_lower x = x \<and> startswith_any x LIKELY_JOB_PREFIX"
    using ne x pre by (simp add: py_lower_idem py_lower_Nil_iff)
  from y show ?thesis
  proof
    assume "y \<in> set (direct_ids obj @ nested_ids obj)"
    with x basic show ?thesis by blast
  next
    assume "y \<in> set (extract_job_ids_from_text (all_text obj))"
    from text_id_shape[OF this] x have "12 \<le> length x \<and> length x \<le> 40 \<and> list_all is_alnum x"
      by simp
    with basic show ?thesis by blast
  qed
qed

theorem extract_job_ids_accepted_witness:
  "''d0'' \<in> set (extract_job_ids (JDict [(''job_id'', JStr '' D0 ''), (''log'', JStr ''ran c0ffee1234567'')]))
   \<and> py_lower ''d0'' = ''d0'' \<and> startswith_any ''d0'' LIKELY_JOB_PREFIX
   \<and> ''c0ffee1234567'' \<in> set (extract_job_ids (JDict [(''job_id'', JStr '' D0 ''), (''log'', JStr ''ran c0ffee1234567'')]))
   \<and> startswith_any ''c0ffee1234567'' LIKELY_JOB_PREFIX"
proof -
  let ?obj = "JDict [(''job_id'', JStr '' D0 ''), (''log'', JStr ''ran c0ffee1234567'')]"
  have a: "''d0'' \<in> set (extract_job_ids ?obj)" by code_simp
  have b: "''c0ffee1234567'' \<in> set (extract_job_ids ?obj)" by code_simp
  from extract_job_ids_accepted[OF a] extract_job_ids_accepted[OF b] a b
  show ?thesis by blast
qed

section \<open>The shot count\<close>

lemma first_some_SomeD: "first_some f xs = Some y \<Longrightarrow> \<exists>x\<in>set xs. f x = Some y"
  by (induction xs) (auto split: option.splits)

lemma positive_int_SomeD:
  "positive_int v = Some r \<Longrightarrow> r = JBool True \<or> (\<exists>i. r = JInt i \<and> 0 < i)"
  by (auto simp: positive_int_def split: json.splits if_splits)

lemma digit_val_nonneg: "0 \<le> digit_val c"
  by (simp add: digit_val_def ascii_digits_def)

lemma foldl_digits_nonneg: "0 \<le> a \<Longrightarrow> 0 \<le> foldl (\<lambda>acc c. 10 * acc + digit_val c) a s"
  by (induction s arbitrary: a) (simp_all add: digit_val_nonneg)

lemma int_of_digits_nonneg: "0 \<le> int_of_digits s"
  by (simp add: int_of_digits_def foldl_digits_nonneg)

lemma shots_at_InrD:
  "shots_at v = Some (Inr r) \<Longrightarrow> r = JBool True \<or> (\<exists>i. r = JInt i \<and> 0 \<le> i)"
  using int_of_digits_nonneg
  by (auto simp: shots_at_def py_int_def split: option.splits json.splits if_splits
      dest: positive_int_SomeD)

text \<open>What holds of a returned shot count: it is \<open>True\<close> or an integer that is not
  negative; only the string branch can give 0.\<close>

lemma extract_shots_value:
  assumes "extract_shots obj = Inr (Some r)"
  shows "r = JBool True \<or> (\<exists>i. r = JInt i \<and> 0 \<le> i)"
proof (cases "first_some (\<lambda>p. shots_at (deep_get obj p)) shots_candidates")
  case (Some x)
  with assms have "x = Inr r" by (cases x) (simp_all add: extract_shots_def)
  with Some obtain p where "shots_at (deep_get obj p) = Some (Inr r)"
    by (auto dest: first_some_SomeD)
  then show ?thesis by (rule shots_at_InrD)
next
  case None
  with assms obtain kvs where "obj = JDict kvs"
    and "first_some (\<lambda>k. case dict_get kvs k of
                              JList items \<Rightarrow>
                                first_some (\<lambda>item. positive_int (deep_get item [''shots''])) items
                            | _ \<Rightarrow> None)
              [''runs'', ''results'', ''jobs'', ''executions''] = Some r"
    by (auto simp: extract_shots_def split: json.splits)
  then obtain k where "(case dict_get kvs k of
                              JList items \<Rightarrow>
                                first_some (\<lambda>item. positive_int (deep_get item [''shots''])) items
                            | _ \<Rightarrow> None) = Some r"
    by (blast dest: first_some_SomeD)
  then obtain items where "first_some (\<lambda>item. positive_int (deep_get item [''shots''])) items = Some r"
    by (cases "dict_get kvs k") simp_all
  then obtain item where "positive_int (deep_get item [''shots'']) = Some r"
    by (auto dest: first_some_SomeD)
  then show ?thesis by (auto dest: positive_int_SomeD)
qed

text \<open>When \<open>extract_shots\<close> raises: some candidate location holds a string of digits that
  \<open>int\<close> refuses.\<close>

lemma shots_at_InlD:
  assumes "shots_at v = Some (Inl e)"
  shows "\<exists>s. v = JStr s \<and> isdigit s \<and> py_int s = Inl e"
proof (cases "positive_int v")
  case (Some r)
  with assms show ?thesis by (simp add: shots_at_def)
next
  case None
  with assms obtain s where v: "v = JStr s" and d: "isdigit s"
    and m: "map_sum id JInt (py_int s) = Inl e"
    by (auto simp: shots_at_def split: json.splits if_splits)
  from m have "py_int s = Inl e" by (cases "py_int s") simp_all
  with v d show ?thesis by blast
qed

lemma extract_shots_InlD:
  assumes "extract_shots obj = Inl e"
  shows "\<exists>p\<in>set shots_candidates. \<exists>s. deep_get obj p = JStr s \<and> isdigit s \<and> py_int s = Inl e"
proof -
  from assms have "first_some (\<lambda>p. shots_at (deep_get obj p)) shots_candidates = Some (Inl e)"
    by (auto simp: extract_shots_def split: option.splits sum.splits)
  then obtain p where "p \<in> set shots_candidates" and "shots_at (deep_get obj p) = Some (Inl e)"
    by (blast dest: first_some_SomeD)
  then show ?thesis by (blast dest: shots_at_InlD)
qed

lemma py_int_too_long: "int_max_str_digits < length s \<Longrightarrow> py_int s = Inl ValueError"
  by (simp add: py_int_def)

text \<open>The two ways in which a document makes \<open>extract_shots\<close>, and with it \<open>build_entry\<close>
  and \<open>main\<close>, raise: a string of more than 4300 digits, and a superscript digit.\<close>

lemma extract_shots_raises_long:
  assumes "isdigit s" and "int_max_str_digits < length s"
  shows "extract_shots (JDict [(''shots'', JStr s)]) = Inl ValueError"
proof -
  from assms(1) obtain c cs where "s = c # cs" "is_digit c"
    by (cases s) (auto simp: isdigit_def)
  then have "positive_int (JStr s) = None" by (simp add: positive_int_def)
  with assms show ?thesis
    by (simp add: extract_shots_def shots_candidates_def shots_at_def py_int_too_long)
qed

lemma extract_shots_raises_superscript:
  "extract_shots (JDict [(''shots'', JStr [CHR 0xB2])]) = Inl ValueError"
  by code_simp

text \<open>
  Claim C5: a returned shot count is a positive integer. The code returns 0 for the
  document \<open>{"shots": "0"}\<close>: the string branch of the candidate loop converts any string of
  digits and lacks the test \<open>> 0\<close> that the integer branch and the sub-run fallback make,
  which both reject 0.
\<close>

theorem extract_shots_zero_string:
  "extract_shots (JDict [(''shots'', JStr ''0'')]) = Inr (Some (JInt 0))
   \<and> extract_shots (JDict [(''shots'', JInt 0)]) = Inr None
   \<and> extract_shots (JDict [(''runs'', JList [JDict [(''shots'', JInt 0)]])]) = Inr None"
  by code_simp

section \<open>The timestamp\<close>

lemma first_some_append:
  "first_some f (xs @ ys) = (case first_some f xs of Some y \<Rightarrow> Some y | None \<Rightarrow> first_some f ys)"
  by (induction xs) (auto split: option.splits)

lemma strings_at_Cons:
  "strings_at obj (p # ps) = (case deep_get obj p of JStr s \<Rightarrow> [s] | _ \<Rightarrow> []) @ strings_at obj ps"
  by (simp add: strings_at_def)

lemma first_some_nonblank:
  "first_some (\<lambda>p. nonblank_str (deep_get obj p)) ps
     = map_option py_strip (find (\<lambda>s. py_strip s \<noteq> []) (strings_at obj ps))"
proof (induction ps)
  case Nil
  then show ?case by (simp add: strings_at_def)
next
  case (Cons p ps)
  then show ?case
    by (cases "deep_get obj p") (simp_all add: strings_at_Cons nonblank_str_def)
qed

lemma deep_get_single: "deep_get (JDict kvs) [k] = dict_get kvs k"
  by (simp add: dict_get_def split: option.splits)

lemma deep_get_not_dict: "\<not> (\<exists>kvs. obj = JDict kvs) \<Longrightarrow> deep_get obj (k # ks) = JNull"
  by (cases obj) simp_all

text \<open>The direct keys are tried on a dict only; on anything else a path of one key finds
  nothing either, so they are candidate locations like the nested paths.\<close>

lemma direct_keys_as_paths:
  "(case obj of JDict kvs \<Rightarrow> first_some (\<lambda>k. nonblank_str (dict_get kvs k)) ks | _ \<Rightarrow> None)
     = first_some (\<lambda>p. nonblank_str (deep_get obj p)) (map (\<lambda>k. [k]) ks)"
proof (cases "\<exists>kvs. obj = JDict kvs")
  case True
  then obtain kvs where "obj = JDict kvs" by blast
  then show ?thesis
    by (induction ks) (simp_all add: deep_get_single del: deep_get.simps split: option.splits)
next
  case False
  then have "\<And>k. deep_get obj [k] = JNull"
    by (rule deep_get_not_dict)
  then have "first_some (\<lambda>p. nonblank_str (deep_get obj p)) (map (\<lambda>k. [k]) ks) = None"
    by (induction ks) (simp_all add: nonblank_str_def)
  with False show ?thesis by (cases obj) simp_all
qed

text \<open>
  Claim C6, as stated, fails: a string with surrounding whitespace is not returned
  verbatim, and a string of whitespace, though not empty, is not accepted.
\<close>

theorem extract_timestamp_verbatim_counterexample:
  "deep_get (JDict [(''timestamp'', JStr '' 2024-05-01 '')]) [''timestamp''] = JStr '' 2024-05-01 ''
   \<and> extract_timestamp (JDict [(''timestamp'', JStr '' 2024-05-01 '')]) = Some ''2024-05-01''
   \<and> extract_timestamp (JDict [(''timestamp'', JStr '' '')]) = None"
  by code_simp

text \<open>
  Claim C6, amended: the timestamp extractor returns the first string, in the order of the
  candidate locations, that has a character other than whitespace, with its leading and
  trailing whitespace removed and nothing else changed; it returns nothing when no
  candidate location holds such a string.
\<close>

theorem extract_timestamp_first_nonblank:
  "extract_timestamp obj
     = map_option py_strip (find (\<lambda>s. py_strip s \<noteq> []) (strings_at obj timestamp_paths))"
proof -
  have split: "timestamp_paths =
      map (\<lambda>k. [k]) [''timestamp'', ''created_utc'', ''created'', ''time'', ''date'']
      @ [[''summary'', ''timestamp''], [''metadata'', ''timestamp''],
         [''execution_metadata'', ''timestamp'']]"
    by (simp add: timestamp_paths_def)
  have "extract_timestamp obj = first_some (\<lambda>p. nonblank_str (deep_get obj p)) timestamp_paths"
    unfolding extract_timestamp_def direct_keys_as_paths split first_some_append ..
  then show ?thesis by (simp only: first_some_nonblank)
qed

section \<open>File names and records\<close>

lemma endswith_append: "endswith (a @ b) b"
  by (simp add: endswith_def)

lemma join_ends_last: "ps \<noteq> [] \<Longrightarrow> \<exists>pre. join sep ps = pre @ last ps"
  by (induction sep ps rule: join.induct) auto

lemma py_suffix_is_suffix: "\<exists>pre. name = pre @ py_suffix name"
proof (cases "py_suffix name = []")
  case True
  then show ?thesis by simp
next
  case False
  then obtain i where "py_suffix name = drop i name"
    by (auto simp: py_suffix_def split: option.splits if_splits)
  then have "name = take i name @ py_suffix name" by simp
  then show ?thesis ..
qed

lemma py_suffix_Nil: "py_suffix [] = []"
  by (simp add: py_suffix_def rfind_dot_def)

text \<open>The name the checker tests ends with the suffix \<open>main\<close> tested.\<close>

lemma rel_path_endswith_suffix:
  assumes "suffix_lower p \<noteq> []"
  shows "endswith (py_lower (rel_path (parts p))) (suffix_lower p)"
proof -
  from assms have ne: "parts p \<noteq> []"
    by (auto simp: suffix_lower_def py_name_def py_lower_def py_suffix_Nil)
  then obtain pre where rel: "rel_path (parts p) = pre @ last (parts p)"
    using join_ends_last[of "parts p" "''/''"] by (auto simp: rel_path_def)
  obtain pre' where "last (parts p) = pre' @ py_suffix (last (parts p))"
    using py_suffix_is_suffix by blast
  with rel have "rel_path (parts p) = (pre @ pre') @ py_suffix (py_name (parts p))"
    using ne by (simp add: py_name_def)
  then have "py_lower (rel_path (parts p)) = py_lower (pre @ pre') @ suffix_lower p"
    by (simp add: suffix_lower_def py_lower_def)
  then show ?thesis by (simp only: endswith_append)
qed

lemma stem_nonempty: "suffix_lower p \<noteq> [] \<Longrightarrow> stem p \<noteq> []"
  by (auto simp: suffix_lower_def stem_def py_suffix_def py_stem_def py_lower_def
      split: option.splits if_splits)

lemma set_candidates:
  "set (candidates files) = {p \<in> set files. suffix_lower p = ''.json'' \<or> suffix_lower p = ''.md''}"
  by (auto simp: candidates_def)

subsection \<open>What \<open>build_entry\<close> returns, and when it raises\<close>

lemma build_entry_no_document:
  "obj = None \<or> obj = Some [] \<Longrightarrow>
   build_entry p obj c =
     Inr \<lparr> entry_file = rel_path (parts p), sha256 = digest p, size_bytes = byte_size p,
           git_commit = c, evidence_group_id = stem p,
           backend = None, timestamp = None, shots = None, job_ids = None \<rparr>"
  by (auto simp: build_entry_def bare_entry_def)

lemma build_entry_Inl_iff:
  "build_entry p obj c = Inl er \<longleftrightarrow>
     (\<exists>kvs. obj = Some kvs \<and> kvs \<noteq> [] \<and> extract_shots (JDict kvs) = Inl er)"
  by (auto simp: build_entry_def Let_def split: option.splits sum.splits)

text \<open>A returned record is the bare one, or the one made of what the extractors give.\<close>

lemma build_entry_InrD:
  assumes "build_entry p obj c = Inr e"
  shows "e = bare_entry p c \<and> (obj = None \<or> obj = Some []) \<or>
         (\<exists>kvs sh. obj = Some kvs \<and> kvs \<noteq> [] \<and> extract_shots (JDict kvs) = Inr sh \<and>
            e = \<lparr> entry_file = rel_path (parts p), sha256 = digest p, size_bytes = byte_size p,
                  git_commit = c,
                  evidence_group_id = detect_evidence_group_id (JDict kvs) (stem p),
                  backend = (if extract_backend (JDict kvs) \<noteq> None \<and> extract_backend (JDict kvs) \<noteq> Some []
                             then extract_backend (JDict kvs) else None),
                  timestamp = (if extract_timestamp (JDict kvs) \<noteq> None \<and> extract_timestamp (JDict kvs) \<noteq> Some []
                               then extract_timestamp (JDict kvs) else None),
                  shots = sh,
                  job_ids = (if extract_job_ids (JDict kvs) \<noteq> [] then Some (extract_job_ids (JDict kvs)) else None) \<rparr>)"
proof (cases obj)
  case None
  with assms show ?thesis by (simp add: build_entry_def)
next
  case (Some kvs)
  show ?thesis
  proof (cases "kvs = []")
    case True
    with Some assms show ?thesis by (simp add: build_entry_def)
  next
    case False
    with Some assms show ?thesis
      by (cases "extract_shots (JDict kvs)") (simp_all add: build_entry_def Let_def)
  qed
qed
lemma build_entry_fixed_fields:
  assumes "build_entry p obj c = Inr e"
  shows "entry_file e = rel_path (parts p)" and "sha256 e = digest p"
    and "size_bytes e = byte_size p" and "git_commit e = c"
  using build_entry_InrD[OF assms] by (auto simp: bare_entry_def)

lemma build_entry_job_ids:
  assumes "build_entry p obj c = Inr e" and "job_ids e = Some js"
  shows "\<exists>d. js = extract_job_ids d"
proof (cases "obj = None \<or> obj = Some []")
  case True
  from build_entry_no_document[OF True, of p c] assms show ?thesis by simp
next
  case False
  then obtain kvs where obj: "obj = Some kvs" "kvs \<noteq> []" by (cases obj) auto
  with assms(1) obtain sh where sh: "extract_shots (JDict kvs) = Inr sh"
    by (cases "extract_shots (JDict kvs)") (simp_all add: build_entry_def Let_def)
  from assms(1) obj sh have "job_ids e = (if extract_job_ids (JDict kvs) \<noteq> []
                                           then Some (extract_job_ids (JDict kvs)) else None)"
    by (auto simp: build_entry_def Let_def)
  with assms(2) have "js = extract_job_ids (JDict kvs)"
    by (simp split: if_splits)
  then show ?thesis ..
qed

lemma detect_group_value:
  "detect_evidence_group_id (JDict kvs) fb =
     (case dict_get kvs ''evidence_group_id'' of
        JStr s \<Rightarrow> (if py_strip s \<noteq> [] then py_strip s else fb)
      | _ \<Rightarrow> fb)"
  by (cases "dict_get kvs ''evidence_group_id''")
     (simp_all add: detect_evidence_group_id_def nonblank_str_def)

lemma grouping_key_value:
  assumes "build_entry p obj c = Inr e"
  shows "evidence_group_id e =
     (case obj of
        None \<Rightarrow> stem p
      | Some kvs \<Rightarrow> (case dict_get kvs ''evidence_group_id'' of
                       JStr s \<Rightarrow> (if py_strip s \<noteq> [] then py_strip s else stem p)
                     | _ \<Rightarrow> stem p))"
proof -
  from build_entry_InrD[OF assms] show ?thesis
  proof
    assume "e = bare_entry p c \<and> (obj = None \<or> obj = Some [])"
    then show ?thesis by (auto simp: bare_entry_def dict_get_def)
  next
    assume "\<exists>kvs sh. obj = Some kvs \<and> kvs \<noteq> [] \<and> extract_shots (JDict kvs) = Inr sh \<and>
            e = \<lparr> entry_file = rel_path (parts p), sha256 = digest p, size_bytes = byte_size p,
                  git_commit = c,
                  evidence_group_id = detect_evidence_group_id (JDict kvs) (stem p),
                  backend = (if extract_backend (JDict kvs) \<noteq> None \<and> extract_backend (JDict kvs) \<noteq> Some []
                             then extract_backend (JDict kvs) else None),
                  timestamp = (if extract_timestamp (JDict kvs) \<noteq> None \<and> extract_timestamp (JDict kvs) \<noteq> Some []
                               then extract_timestamp (JDict kvs) else None),
                  shots = sh,
                  job_ids = (if extract_job_ids (JDict kvs) \<noteq> [] then Some (extract_job_ids (JDict kvs)) else None) \<rparr>"
    then obtain kvs where "obj = Some kvs"
      and "evidence_group_id e = detect_evidence_group_id (JDict kvs) (stem p)"
      by auto
    then show ?thesis by (simp add: detect_group_value)
  qed
qed

subsection \<open>A value that is not a dict, under \<open>_root\<close>\<close>


















subsection \<open>The loop of \<open>main\<close>\<close>

lemma build_entries_Inr_iff:
  "build_entries c ps = Inr es \<longleftrightarrow> map (\<lambda>p. build_entry p (load_obj p) c) ps = map Inr es"
proof (induction ps arbitrary: es)
  case Nil
  then show ?case by auto
next
  case (Cons p ps)
  show ?case
  proof (cases "build_entry p (load_obj p) c")
    case (Inl e)
    then show ?thesis by (cases es) auto
  next
    case (Inr en)
    show ?thesis
    proof (cases "build_entries c ps")
      case (Inl e)
      with Cons.IH have "\<And>es'. map (\<lambda>p. build_entry p (load_obj p) c) ps \<noteq> map Inr es'"
        by (metis sum.distinct(1))
      with Inr Inl show ?thesis by (cases es) auto
    next
      case (Inr es')
      with Cons.IH[of es'] have "map (\<lambda>p. build_entry p (load_obj p) c) ps = map Inr es'"
        by simp
      with \<open>build_entry p (load_obj p) c = Inr en\<close> Inr show ?thesis
        by (cases es) (auto simp: inj_map_eq_map[OF inj_Inr])
    qed
  qed
qed


text \<open>When \<open>main\<close> returns, the manifest holds the record of every file it works on, in
  their order.\<close>

lemma main_manifest_InrD:
  assumes "main_manifest g c files = Inr m"
  shows "map (\<lambda>p. build_entry p (load_obj p) c) (candidates files) = map Inr (evidence_sets m)"
    and "schema_version m = 2" and "generated_utc m = g" and "manifest_git_commit m = c"
  using assms
  by (auto simp: main_manifest_def build_entries_Inr_iff split: sum.splits)

lemma main_entries_iff:
  assumes "main_manifest g c files = Inr m"
  shows "e \<in> set (evidence_sets m) \<longleftrightarrow>
           (\<exists>q\<in>set files. (suffix_lower q = ''.json'' \<or> suffix_lower q = ''.md'')
                          \<and> build_entry q (load_obj q) c = Inr e)"
proof -
  from main_manifest_InrD(1)[OF assms]
  have "set (map (\<lambda>p. build_entry p (load_obj p) c) (candidates files))
          = set (map Inr (evidence_sets m))"
    by simp
  then have "(\<lambda>p. build_entry p (load_obj p) c) ` set (candidates files)
               = Inr ` set (evidence_sets m)"
    by simp
  moreover have "e \<in> set (evidence_sets m) \<longleftrightarrow> Inr e \<in> (Inr ` set (evidence_sets m) :: (error + entry) set)"
    by auto
  ultimately have "e \<in> set (evidence_sets m) \<longleftrightarrow>
      Inr e \<in> (\<lambda>p. build_entry p (load_obj p) c) ` set (candidates files)"
    by simp
  then show ?thesis
    by (auto simp: set_candidates image_iff)
qed


lemma main_entry_mem:
  assumes "main_manifest g c files = Inr m" and "p \<in> set files"
    and "suffix_lower p = ''.json'' \<or> suffix_lower p = ''.md''"
    and "build_entry p (load_obj p) c = Inr e"
  shows "e \<in> set (evidence_sets m)"
  using assms by (auto simp: main_entries_iff)

subsection \<open>The lists of the checker\<close>

lemma warnings_fields:
  "missing_backend (write_warnings_md rt m)
     = map entry_file (filter (\<lambda>e. is_json_entry e \<and> backend e = None) (evidence_sets m))"
  "missing_shots (write_warnings_md rt m)
     = map entry_file (filter (\<lambda>e. is_json_entry e \<and> shots e = None) (evidence_sets m))"
  "missing_timestamp (write_warnings_md rt m)
     = map entry_file (filter (\<lambda>e. is_json_entry e \<and> timestamp e = None) (evidence_sets m))"
  "missing_job_ids (write_warnings_md rt m)
     = map entry_file (filter (\<lambda>e. is_json_entry e \<and> job_ids e = None) (evidence_sets m))"
  by (simp_all add: write_warnings_md_def Let_def split: prod.splits)

section \<open>The checker: the two sets of its first loop\<close>

lemma collect_ids_eq:
  "collect_ids rt es (J, D) = (J \<union> py_lower ` structured_ids es, D \<union> narrative_ids rt es)"
proof (induction es arbitrary: J D)
  case Nil
  then show ?case by (simp add: structured_ids_def narrative_ids_def)
next
  case (Cons e es)
  have s: "structured_ids (e # es) =
      (if is_json_entry e then (case job_ids e of Some js \<Rightarrow> set js | None \<Rightarrow> {}) else {})
      \<union> structured_ids es"
    by (auto simp: structured_ids_def)
  have n: "narrative_ids rt (e # es) =
      (if is_dashboard_entry rt e then set (extract_job_ids_from_text (rt (entry_file e))) else {})
      \<union> narrative_ids rt es"
    by (auto simp: narrative_ids_def)
  show ?case
    unfolding s n
    by (cases "job_ids e")
       (auto simp: Cons.IH Let_def is_json_entry_def is_dashboard_entry_def py_lower_def)
qed

lemma finite_narrative_ids: "finite (narrative_ids rt es)"
  by (simp add: narrative_ids_def)

lemma missing_in_json_eq:
  "missing_in_json (write_warnings_md rt m) =
     sorted_list_of_set {j \<in> narrative_ids rt (evidence_sets m).
                          py_lower j \<notin> py_lower ` structured_ids (evidence_sets m)}"
  by (simp add: write_warnings_md_def Let_def collect_ids_eq)

lemma narrative_ids_lower: "j \<in> narrative_ids rt es \<Longrightarrow> py_lower j = j"
  by (auto simp: narrative_ids_def dest: text_id_shape)

lemma extract_job_ids_lower:
  assumes "x \<in> set (extract_job_ids obj)"
  shows "py_lower x = x"
proof -
  from assms have "x \<in> set (normalize_dedupe []
      (direct_ids obj @ nested_ids obj @ extract_job_ids_from_text (all_text obj)))"
    by (simp add: extract_job_ids_def)
  from normalize_dedupe_mem[OF this] obtain y where "x = py_lower (py_strip y)"
    by auto
  then show ?thesis by (simp add: py_lower_idem)
qed

lemma structured_ids_mem:
  "j \<in> structured_ids es \<longleftrightarrow>
     (\<exists>e\<in>set es. is_json_entry e \<and> (\<exists>js. job_ids e = Some js \<and> j \<in> set js))"
  by (auto simp: structured_ids_def split: option.splits)

lemma main_structured_ids_lower:
  assumes "main_manifest g c files = Inr m"
    and "j \<in> structured_ids (evidence_sets m)"
  shows "py_lower j = j"
proof -
  from assms(2) obtain e js where e: "e \<in> set (evidence_sets m)"
    and js: "job_ids e = Some js" "j \<in> set js"
    by (auto simp: structured_ids_mem)
  from e obtain p where "build_entry p (load_obj p) c = Inr e"
    by (auto simp: main_entries_iff[OF assms(1)])
  with js(1) obtain d where "js = extract_job_ids d"
    using build_entry_job_ids by blast
  with js(2) show ?thesis by (simp add: extract_job_ids_lower)
qed

text \<open>For a manifest \<open>main\<close> has built, the mismatch list holds the difference of the two
  sets.\<close>

lemma mismatch_set_main:
  assumes "main_manifest g c files = Inr m"
  shows "set (missing_in_json (write_warnings_md rt m))
           = narrative_ids rt (evidence_sets m) - structured_ids (evidence_sets m)"
proof -
  let ?es = "evidence_sets m"
  have "py_lower ` structured_ids ?es = structured_ids ?es"
    using main_structured_ids_lower[OF assms] by (auto simp: image_iff)
  moreover have "finite {j \<in> narrative_ids rt ?es. py_lower j \<notin> structured_ids ?es}"
    by (simp add: finite_narrative_ids)
  ultimately show ?thesis
    by (auto simp: missing_in_json_eq narrative_ids_lower)
qed

section \<open>Manifest assembly is a function of the set of files\<close>

lemma candidates_order_free:
  assumes "set files = set files'"
    and "distinct (map parts files)" and "distinct (map parts files')"
  shows "candidates files = candidates files'"
proof -
  let ?P = "\<lambda>p. suffix_lower p \<in> set [''.json'', ''.md'']"
  let ?xs = "sort_key parts (filter ?P files)"
  let ?ys = "sort_key parts (filter ?P files')"
  have inj: "inj_on parts (set files)"
    using assms(2) by (simp add: distinct_map)
  have sets: "set ?xs = set ?ys"
    using assms(1) by simp
  have sub: "set ?xs \<union> set ?ys \<subseteq> set files"
    using assms(1) by auto
  have dx: "distinct (map parts ?xs)"
    using assms(2) by (auto simp: distinct_map intro: inj_on_subset)
  have dy: "distinct (map parts ?ys)"
    using assms(3) by (auto simp: distinct_map intro: inj_on_subset)
  have "set (map parts ?xs) = set (map parts ?ys)"
    using sets by (simp only: set_map)
  with dx dy have "map parts ?xs = map parts ?ys"
    by (intro sorted_distinct_set_unique) simp_all
  moreover have "inj_on parts (set ?xs \<union> set ?ys)"
    using inj sub by (rule inj_on_subset)
  ultimately have "?xs = ?ys"
    by (simp add: inj_on_map_eq_map)
  then show ?thesis by (simp add: candidates_def)
qed

text \<open>
  Claim C3: with the revision and the generation timestamp fixed, two runs over the same
  set of files end alike, in whatever order the folder is enumerated: they build the same
  manifest, and so whatever \<open>dumps\<close> writes for a manifest is the same text, or they
  raise the same exception. Two files of one folder differ in their paths.
\<close>

theorem manifest_deterministic:
  assumes "set files = set files'"
    and "distinct (map parts files)" and "distinct (map parts files')"
  shows "main_manifest generated commit files = main_manifest generated commit files'
       \<and> map_sum id dumps (main_manifest generated commit files)
           = map_sum id dumps (main_manifest generated commit files')"
  using candidates_order_free[OF assms] by (simp add: main_manifest_def)

theorem manifest_deterministic_witness:
  "set [\<lparr>parts = [''b.md''], digest = ''0b'', byte_size = 2, loaded = None\<rparr>,
        \<lparr>parts = [''a'', ''run.json''], digest = ''0a'', byte_size = 2, loaded = Some (JDict [])\<rparr>]
   = set [\<lparr>parts = [''a'', ''run.json''], digest = ''0a'', byte_size = 2, loaded = Some (JDict [])\<rparr>,
          \<lparr>parts = [''b.md''], digest = ''0b'', byte_size = 2, loaded = None\<rparr>]
   \<and> distinct (map parts
        [\<lparr>parts = [''b.md''], digest = ''0b'', byte_size = 2, loaded = None\<rparr>,
         \<lparr>parts = [''a'', ''run.json''], digest = ''0a'', byte_size = 2, loaded = Some (JDict [])\<rparr>])
   \<and> main_manifest ''t'' ''c''
        [\<lparr>parts = [''b.md''], digest = ''0b'', byte_size = 2, loaded = None\<rparr>,
         \<lparr>parts = [''a'', ''run.json''], digest = ''0a'', byte_size = 2, loaded = Some (JDict [])\<rparr>]
     = main_manifest ''t'' ''c''
        [\<lparr>parts = [''a'', ''run.json''], digest = ''0a'', byte_size = 2, loaded = Some (JDict [])\<rparr>,
         \<lparr>parts = [''b.md''], digest = ''0b'', byte_size = 2, loaded = None\<rparr>]
   \<and> main_manifest ''t'' ''c''
        [\<lparr>parts = [''a'', ''run.json''], digest = ''0a'', byte_size = 2, loaded = Some (JDict [])\<rparr>,
         \<lparr>parts = [''b.md''], digest = ''0b'', byte_size = 2, loaded = None\<rparr>]
     = Inr \<lparr> schema_version = 2, generated_utc = ''t'', manifest_git_commit = ''c'',
             evidence_sets =
               [\<lparr> entry_file = ''a/run.json'', sha256 = ''0a'', size_bytes = 2, git_commit = ''c'',
                   evidence_group_id = ''run'',
                   backend = None, timestamp = None, shots = None, job_ids = None \<rparr>,
                \<lparr> entry_file = ''b.md'', sha256 = ''0b'', size_bytes = 2, git_commit = ''c'',
                   evidence_group_id = ''b'',
                   backend = None, timestamp = None, shots = None, job_ids = None \<rparr>] \<rparr>"
proof -
  let ?A = "\<lparr>parts = [''b.md''], digest = ''0b'', byte_size = 2, loaded = None\<rparr>"
  let ?B = "\<lparr>parts = [''a'', ''run.json''], digest = ''0a'', byte_size = 2, loaded = Some (JDict [])\<rparr>"
  have s: "set [?A, ?B] = set [?B, ?A]" by auto
  have d1: "distinct (map parts [?A, ?B])" by simp
  have d2: "distinct (map parts [?B, ?A])" by simp
  have v: "main_manifest ''t'' ''c'' [?B, ?A]
     = Inr \<lparr> schema_version = 2, generated_utc = ''t'', manifest_git_commit = ''c'',
             evidence_sets =
               [\<lparr> entry_file = ''a/run.json'', sha256 = ''0a'', size_bytes = 2, git_commit = ''c'',
                   evidence_group_id = ''run'',
                   backend = None, timestamp = None, shots = None, job_ids = None \<rparr>,
                \<lparr> entry_file = ''b.md'', sha256 = ''0b'', size_bytes = 2, git_commit = ''c'',
                   evidence_group_id = ''b'',
                   backend = None, timestamp = None, shots = None, job_ids = None \<rparr>] \<rparr>"
    by code_simp
  from manifest_deterministic[OF s d1 d2, of "''t''" "''c''"] s d1 v show ?thesis by blast
qed

section \<open>Records without metadata and the missing-field lists\<close>

lemma json_file_json_entry:
  assumes "suffix_lower p = ''.json''" and "build_entry p obj c = Inr e"
  shows "is_json_entry e"
  using rel_path_endswith_suffix[of p] assms
  by (simp add: is_json_entry_def build_entry_fixed_fields(1)[OF assms(2)])

lemma listed: "e \<in> set es \<Longrightarrow> Q e \<Longrightarrow> entry_file e \<in> set (map entry_file (filter Q es))"
  by auto

lemma no_metadata_in_all_lists:
  assumes "main_manifest g c files = Inr m"
    and "p \<in> set files" and "suffix_lower p = ''.json''"
    and "load_obj p = None \<or> load_obj p = Some []"
  shows "rel_path (parts p) \<in> set (missing_backend (write_warnings_md rt m))
       \<and> rel_path (parts p) \<in> set (missing_shots (write_warnings_md rt m))
       \<and> rel_path (parts p) \<in> set (missing_timestamp (write_warnings_md rt m))
       \<and> rel_path (parts p) \<in> set (missing_job_ids (write_warnings_md rt m))"
proof -
  define e where "e = \<lparr> entry_file = rel_path (parts p), sha256 = digest p,
      size_bytes = byte_size p, git_commit = c, evidence_group_id = stem p,
      backend = None, timestamp = None, shots = None, job_ids = None \<rparr>"
  have b: "build_entry p (load_obj p) c = Inr e"
    unfolding e_def using assms(4) by (rule build_entry_no_document)
  have mem: "e \<in> set (evidence_sets m)"
    using assms(1,2,3) b by (simp add: main_entry_mem)
  have js: "is_json_entry e"
    using assms(3) b by (rule json_file_json_entry)
  have none: "backend e = None" "shots e = None" "timestamp e = None" "job_ids e = None"
    by (simp_all add: e_def)
  have f: "entry_file e = rel_path (parts p)"
    by (simp add: e_def)
  have "entry_file e \<in> set (missing_backend (write_warnings_md rt m))"
    unfolding warnings_fields using mem js none by (intro listed) simp_all
  moreover have "entry_file e \<in> set (missing_shots (write_warnings_md rt m))"
    unfolding warnings_fields using mem js none by (intro listed) simp_all
  moreover have "entry_file e \<in> set (missing_timestamp (write_warnings_md rt m))"
    unfolding warnings_fields using mem js none by (intro listed) simp_all
  moreover have "entry_file e \<in> set (missing_job_ids (write_warnings_md rt m))"
    unfolding warnings_fields using mem js none by (intro listed) simp_all
  ultimately show ?thesis by (simp only: f)
qed

text \<open>
  Claim C7: the record of a \<open>.json\<close> file that holds the empty document \<open>{}\<close> has none of
  \<open>backend\<close>, \<open>shots\<close>, \<open>timestamp\<close> and \<open>job_ids\<close>, and the checker, run on the manifest
  \<open>main\<close> has built, lists the file in all four missing-field lists.
\<close>

theorem empty_document_record:
  assumes "p \<in> set files" and "suffix_lower p = ''.json''" and "loaded p = Some (JDict [])"
    and "main_manifest g c files = Inr m"
  shows "build_entry p (load_obj p) c =
           Inr \<lparr> entry_file = rel_path (parts p), sha256 = digest p, size_bytes = byte_size p,
                 git_commit = c, evidence_group_id = stem p,
                 backend = None, timestamp = None, shots = None, job_ids = None \<rparr>
       \<and> rel_path (parts p) \<in> set (missing_backend (write_warnings_md rt m))
       \<and> rel_path (parts p) \<in> set (missing_shots (write_warnings_md rt m))
       \<and> rel_path (parts p) \<in> set (missing_timestamp (write_warnings_md rt m))
       \<and> rel_path (parts p) \<in> set (missing_job_ids (write_warnings_md rt m))"
proof -
  from assms(2,3) have obj: "load_obj p = None \<or> load_obj p = Some []"
    by (simp add: load_obj_def)
  from build_entry_no_document[OF obj, of p c]
    no_metadata_in_all_lists[OF assms(4,1,2) obj, of rt]
  show ?thesis by simp
qed

theorem empty_document_record_witness:
  "suffix_lower \<lparr>parts = [''run.json''], digest = ''0a'', byte_size = 2, loaded = Some (JDict [])\<rparr> = ''.json''
   \<and> main_manifest ''t'' ''c''
        [\<lparr>parts = [''run.json''], digest = ''0a'', byte_size = 2, loaded = Some (JDict [])\<rparr>]
      = Inr \<lparr> schema_version = 2, generated_utc = ''t'', manifest_git_commit = ''c'',
              evidence_sets =
                [\<lparr> entry_file = ''run.json'', sha256 = ''0a'', size_bytes = 2, git_commit = ''c'',
                    evidence_group_id = ''run'',
                    backend = None, timestamp = None, shots = None, job_ids = None \<rparr>] \<rparr>
   \<and> ''run.json'' \<in> set (missing_backend (write_warnings_md (\<lambda>f. [])
        \<lparr> schema_version = 2, generated_utc = ''t'', manifest_git_commit = ''c'',
          evidence_sets =
            [\<lparr> entry_file = ''run.json'', sha256 = ''0a'', size_bytes = 2, git_commit = ''c'',
                evidence_group_id = ''run'',
                backend = None, timestamp = None, shots = None, job_ids = None \<rparr>] \<rparr>))
   \<and> ''run.json'' \<in> set (missing_job_ids (write_warnings_md (\<lambda>f. [])
        \<lparr> schema_version = 2, generated_utc = ''t'', manifest_git_commit = ''c'',
          evidence_sets =
            [\<lparr> entry_file = ''run.json'', sha256 = ''0a'', size_bytes = 2, git_commit = ''c'',
                evidence_group_id = ''run'',
                backend = None, timestamp = None, shots = None, job_ids = None \<rparr>] \<rparr>))"
proof -
  let ?p = "\<lparr>parts = [''run.json''], digest = ''0a'', byte_size = 2, loaded = Some (JDict [])\<rparr>"
  let ?m = "\<lparr> schema_version = 2, generated_utc = ''t'', manifest_git_commit = ''c'',
          evidence_sets =
            [\<lparr> entry_file = ''run.json'', sha256 = ''0a'', size_bytes = 2, git_commit = ''c'',
                evidence_group_id = ''run'',
                backend = None, timestamp = None, shots = None, job_ids = None \<rparr>] \<rparr>"
  have a: "?p \<in> set [?p]" by simp
  have b: "suffix_lower ?p = ''.json''" by code_simp
  have l: "loaded ?p = Some (JDict [])" by simp
  have m: "main_manifest ''t'' ''c'' [?p] = Inr ?m" by code_simp
  have r: "rel_path (parts ?p) = ''run.json''" by (simp add: rel_path_def)
  from empty_document_record[OF a b l m, of "\<lambda>f. []"] b m
  show ?thesis unfolding r by blast
qed

section \<open>Structured records are told by the file name\<close>

lemma listed_iff:
  "f \<in> set (map entry_file (filter (\<lambda>e. is_json_entry e \<and> Q e) es))
     \<longleftrightarrow> (\<exists>e\<in>set es. entry_file e = f \<and> endswith (py_lower f) ''.json'' \<and> Q e)"
  by (auto simp: is_json_entry_def)

text \<open>
  Claim C9: the checker takes a record for a structured one by the name of its file alone
  (it ends with \<open>.json\<close>, in any case). So a file named \<open>.json\<close> that did not parse, whose
  record has no metadata, is in all four missing-field lists of the manifest \<open>main\<close> has
  built, like a document that parsed and lacks the fields: for any manifest, a file is in
  a list exactly when a record of that name, ending with \<open>.json\<close>, lacks the field.
\<close>

theorem unparsed_json_listed:
  assumes "p \<in> set files" and "suffix_lower p = ''.json''" and "loaded p = None"
    and "main_manifest g c files = Inr m"
  shows "rel_path (parts p) \<in> set (missing_backend (write_warnings_md rt m))
       \<and> rel_path (parts p) \<in> set (missing_shots (write_warnings_md rt m))
       \<and> rel_path (parts p) \<in> set (missing_timestamp (write_warnings_md rt m))
       \<and> rel_path (parts p) \<in> set (missing_job_ids (write_warnings_md rt m))
       \<and> (f \<in> set (missing_backend (write_warnings_md rt m')) \<longleftrightarrow>
            (\<exists>e\<in>set (evidence_sets m'). entry_file e = f \<and> endswith (py_lower f) ''.json'' \<and> backend e = None))
       \<and> (f \<in> set (missing_shots (write_warnings_md rt m')) \<longleftrightarrow>
            (\<exists>e\<in>set (evidence_sets m'). entry_file e = f \<and> endswith (py_lower f) ''.json'' \<and> shots e = None))
       \<and> (f \<in> set (missing_timestamp (write_warnings_md rt m')) \<longleftrightarrow>
            (\<exists>e\<in>set (evidence_sets m'). entry_file e = f \<and> endswith (py_lower f) ''.json'' \<and> timestamp e = None))
       \<and> (f \<in> set (missing_job_ids (write_warnings_md rt m')) \<longleftrightarrow>
            (\<exists>e\<in>set (evidence_sets m'). entry_file e = f \<and> endswith (py_lower f) ''.json'' \<and> job_ids e = None))"
proof -
  from assms(2,3) have obj: "load_obj p = None \<or> load_obj p = Some []"
    by (simp add: load_obj_def)
  from no_metadata_in_all_lists[OF assms(4,1,2) obj, of rt]
  show ?thesis
    by (simp only: warnings_fields listed_iff simp_thms)
qed

theorem unparsed_json_listed_witness:
  "suffix_lower \<lparr>parts = [''logs'', ''bad.JSON''], digest = ''0a'', byte_size = 7, loaded = None\<rparr> = ''.json''
   \<and> main_manifest ''t'' ''c''
        [\<lparr>parts = [''logs'', ''bad.JSON''], digest = ''0a'', byte_size = 7, loaded = None\<rparr>]
      = Inr \<lparr> schema_version = 2, generated_utc = ''t'', manifest_git_commit = ''c'',
              evidence_sets =
                [\<lparr> entry_file = ''logs/bad.JSON'', sha256 = ''0a'', size_bytes = 7, git_commit = ''c'',
                    evidence_group_id = ''bad'',
                    backend = None, timestamp = None, shots = None, job_ids = None \<rparr>] \<rparr>
   \<and> ''logs/bad.JSON'' \<in> set (missing_backend (write_warnings_md (\<lambda>f. [])
        \<lparr> schema_version = 2, generated_utc = ''t'', manifest_git_commit = ''c'',
          evidence_sets =
            [\<lparr> entry_file = ''logs/bad.JSON'', sha256 = ''0a'', size_bytes = 7, git_commit = ''c'',
                evidence_group_id = ''bad'',
                backend = None, timestamp = None, shots = None, job_ids = None \<rparr>] \<rparr>))
   \<and> ''logs/bad.JSON'' \<in> set (missing_shots (write_warnings_md (\<lambda>f. [])
        \<lparr> schema_version = 2, generated_utc = ''t'', manifest_git_commit = ''c'',
          evidence_sets =
            [\<lparr> entry_file = ''logs/bad.JSON'', sha256 = ''0a'', size_bytes = 7, git_commit = ''c'',
                evidence_group_id = ''bad'',
                backend = None, timestamp = None, shots = None, job_ids = None \<rparr>] \<rparr>))
   \<and> ''logs/bad.JSON'' \<in> set (missing_timestamp (write_warnings_md (\<lambda>f. [])
        \<lparr> schema_version = 2, generated_utc = ''t'', manifest_git_commit = ''c'',
          evidence_sets =
            [\<lparr> entry_file = ''logs/bad.JSON'', sha256 = ''0a'', size_bytes = 7, git_commit = ''c'',
                evidence_group_id = ''bad'',
                backend = None, timestamp = None, shots = None, job_ids = None \<rparr>] \<rparr>))
   \<and> ''logs/bad.JSON'' \<in> set (missing_job_ids (write_warnings_md (\<lambda>f. [])
        \<lparr> schema_version = 2, generated_utc = ''t'', manifest_git_commit = ''c'',
          evidence_sets =
            [\<lparr> entry_file = ''logs/bad.JSON'', sha256 = ''0a'', size_bytes = 7, git_commit = ''c'',
                evidence_group_id = ''bad'',
                backend = None, timestamp = None, shots = None, job_ids = None \<rparr>] \<rparr>))"
proof -
  let ?p = "\<lparr>parts = [''logs'', ''bad.JSON''], digest = ''0a'', byte_size = 7, loaded = None\<rparr>"
  let ?m = "\<lparr> schema_version = 2, generated_utc = ''t'', manifest_git_commit = ''c'',
          evidence_sets =
            [\<lparr> entry_file = ''logs/bad.JSON'', sha256 = ''0a'', size_bytes = 7, git_commit = ''c'',
                evidence_group_id = ''bad'',
                backend = None, timestamp = None, shots = None, job_ids = None \<rparr>] \<rparr>"
  have a: "?p \<in> set [?p]" by simp
  have b: "suffix_lower ?p = ''.json''" by code_simp
  have l: "loaded ?p = None" by simp
  have m: "main_manifest ''t'' ''c'' [?p] = Inr ?m" by code_simp
  have r: "rel_path (parts ?p) = ''logs/bad.JSON''" by (simp add: rel_path_def)
  from unparsed_json_listed[OF a b l m, of "\<lambda>f. []"] b m
  show ?thesis unfolding r by blast
qed

section \<open>Files that do not parse, and values that are not a dict\<close>






section \<open>The grouping key\<close>

text \<open>
  Claim C8, as stated, fails: a declared value is not used as it stands when it has
  surrounding whitespace, and not at all when it is not a string.
\<close>

theorem grouping_key_verbatim_counterexample:
  "dict_get [(''evidence_group_id'', JStr '' g1 '')] ''evidence_group_id'' = JStr '' g1 ''
   \<and> build_entry
        \<lparr>parts = [''run.json''], digest = ''0a'', byte_size = 9, loaded = None\<rparr>
        (Some [(''evidence_group_id'', JStr '' g1 '')]) ''c''
     = Inr \<lparr> entry_file = ''run.json'', sha256 = ''0a'', size_bytes = 9, git_commit = ''c'',
             evidence_group_id = ''g1'',
             backend = None, timestamp = None, shots = None, job_ids = None \<rparr>
   \<and> build_entry
        \<lparr>parts = [''run.json''], digest = ''0a'', byte_size = 9, loaded = None\<rparr>
        (Some [(''evidence_group_id'', JInt 7)]) ''c''
     = Inr \<lparr> entry_file = ''run.json'', sha256 = ''0a'', size_bytes = 9, git_commit = ''c'',
             evidence_group_id = ''run'',
             backend = None, timestamp = None, shots = None, job_ids = None \<rparr>"
  by code_simp

text \<open>
  Claim C8, amended: every record \<open>build_entry\<close> returns has a grouping key. When the
  document declares under \<open>evidence_group_id\<close> a string with a character other than
  whitespace, the key is that string without its leading and trailing whitespace;
  otherwise (no document, no such key, a value that is not a string, a blank string) it is
  the base name of the file without its extension. For a file named \<open>.json\<close> or \<open>.md\<close>
  the key is not the empty string.
\<close>

theorem grouping_key_always:
  assumes "build_entry p obj c = Inr e"
  shows "evidence_group_id e =
     (case obj of
        None \<Rightarrow> stem p
      | Some kvs \<Rightarrow> (case dict_get kvs ''evidence_group_id'' of
                       JStr s \<Rightarrow> (if py_strip s \<noteq> [] then py_strip s else stem p)
                     | _ \<Rightarrow> stem p))
   \<and> (suffix_lower p = ''.json'' \<or> suffix_lower p = ''.md''
        \<longrightarrow> evidence_group_id e \<noteq> [])"
proof -
  have "suffix_lower p = ''.json'' \<or> suffix_lower p = ''.md'' \<Longrightarrow> stem p \<noteq> []"
    by (rule stem_nonempty) auto
  then show ?thesis
    by (auto simp: grouping_key_value[OF assms] split: option.splits json.splits)
qed

theorem grouping_key_always_witness:
  "suffix_lower \<lparr>parts = [''sub'', ''run.json''], digest = ''0a'', byte_size = 9, loaded = None\<rparr> = ''.json''
   \<and> build_entry
        \<lparr>parts = [''sub'', ''run.json''], digest = ''0a'', byte_size = 9, loaded = None\<rparr>
        (Some [(''shots'', JInt 5)]) ''c''
     = Inr \<lparr> entry_file = ''sub/run.json'', sha256 = ''0a'', size_bytes = 9, git_commit = ''c'',
             evidence_group_id = ''run'',
             backend = None, timestamp = None, shots = Some (JInt 5), job_ids = None \<rparr>
   \<and> evidence_group_id
        \<lparr> entry_file = ''sub/run.json'', sha256 = ''0a'', size_bytes = 9, git_commit = ''c'',
          evidence_group_id = ''run'',
          backend = None, timestamp = None, shots = Some (JInt 5), job_ids = None \<rparr> \<noteq> []"
proof -
  let ?p = "\<lparr>parts = [''sub'', ''run.json''], digest = ''0a'', byte_size = 9, loaded = None\<rparr>"
  let ?e = "\<lparr> entry_file = ''sub/run.json'', sha256 = ''0a'', size_bytes = 9, git_commit = ''c'',
          evidence_group_id = ''run'',
          backend = None, timestamp = None, shots = Some (JInt 5), job_ids = None \<rparr>"
  have b: "suffix_lower ?p = ''.json''" by code_simp
  have v: "build_entry ?p (Some [(''shots'', JInt 5)]) ''c'' = Inr ?e" by code_simp
  from grouping_key_always[OF v] b have "evidence_group_id ?e \<noteq> []" by blast
  with b v show ?thesis by blast
qed

section \<open>The cross-reference\<close>

text \<open>
  Claim C4: for the manifest a run of \<open>main\<close> has built, the mismatch list of the checker
  holds, sorted and without repetition, the identifiers of the narrative documents that
  are in the \<open>job_ids\<close> of no structured record: the difference of the two sets, so that
  an identifier recorded by any one structured record is not flagged. In particular, for
  a markdown file with the marker word that mentions \<open>d0a1b2c3d4e5\<close> and a \<open>.json\<close> file
  whose record has no job identifier, \<open>main\<close> returns and the list is exactly that
  identifier.
\<close>

theorem mismatch_is_set_difference:
  assumes "main_manifest g c files = Inr m"
  shows "set (missing_in_json (write_warnings_md rt m))
     = narrative_ids rt (evidence_sets m) - structured_ids (evidence_sets m)
   \<and> sorted (missing_in_json (write_warnings_md rt m))
   \<and> distinct (missing_in_json (write_warnings_md rt m))
   \<and> map_sum id
        (\<lambda>m. missing_in_json (write_warnings_md (\<lambda>f. ''IBM Quantum Dashboard: job d0a1b2c3d4e5'') m))
        (main_manifest g c
          [\<lparr>parts = [''dash.md''], digest = ''0a'', byte_size = 40, loaded = None\<rparr>,
           \<lparr>parts = [''run.json''], digest = ''0b'', byte_size = 2, loaded = Some (JDict [])\<rparr>])
      = Inr [''d0a1b2c3d4e5'']"
proof -
  have ex: "map_sum id
        (\<lambda>m. missing_in_json (write_warnings_md (\<lambda>f. ''IBM Quantum Dashboard: job d0a1b2c3d4e5'') m))
        (main_manifest g c
          [\<lparr>parts = [''dash.md''], digest = ''0a'', byte_size = 40, loaded = None\<rparr>,
           \<lparr>parts = [''run.json''], digest = ''0b'', byte_size = 2, loaded = Some (JDict [])\<rparr>])
      = Inr [''d0a1b2c3d4e5'']"
    by code_simp
  have "sorted (missing_in_json (write_warnings_md rt m))"
    and "distinct (missing_in_json (write_warnings_md rt m))"
    by (simp_all add: missing_in_json_eq)
  with ex mismatch_set_main[OF assms, of rt] show ?thesis by blast
qed

theorem mismatch_is_set_difference_witness:
  "main_manifest ''t'' ''c''
     [\<lparr>parts = [''dash.md''], digest = ''0a'', byte_size = 60, loaded = None\<rparr>,
      \<lparr>parts = [''run.json''], digest = ''0b'', byte_size = 27,
       loaded = Some (JDict [(''job_id'', JStr ''c0ffee1234567'')])\<rparr>]
     = Inr \<lparr> schema_version = 2, generated_utc = ''t'', manifest_git_commit = ''c'',
             evidence_sets =
               [\<lparr> entry_file = ''dash.md'', sha256 = ''0a'', size_bytes = 60, git_commit = ''c'',
                  evidence_group_id = ''dash'',
                  backend = None, timestamp = None, shots = None, job_ids = None \<rparr>,
                \<lparr> entry_file = ''run.json'', sha256 = ''0b'', size_bytes = 27, git_commit = ''c'',
                  evidence_group_id = ''run'',
                  backend = None, timestamp = None, shots = None,
                  job_ids = Some [''c0ffee1234567''] \<rparr>] \<rparr>
   \<and> missing_in_json (write_warnings_md
         (\<lambda>f. ''Dashboard: jobs d0a1b2c3d4e5 and c0ffee1234567'')
         \<lparr> schema_version = 2, generated_utc = ''t'', manifest_git_commit = ''c'',
           evidence_sets =
             [\<lparr> entry_file = ''dash.md'', sha256 = ''0a'', size_bytes = 60, git_commit = ''c'',
                evidence_group_id = ''dash'',
                backend = None, timestamp = None, shots = None, job_ids = None \<rparr>,
              \<lparr> entry_file = ''run.json'', sha256 = ''0b'', size_bytes = 27, git_commit = ''c'',
                evidence_group_id = ''run'',
                backend = None, timestamp = None, shots = None,
                job_ids = Some [''c0ffee1234567''] \<rparr>] \<rparr>) = [''d0a1b2c3d4e5'']
   \<and> narrative_ids (\<lambda>f. ''Dashboard: jobs d0a1b2c3d4e5 and c0ffee1234567'')
         [\<lparr> entry_file = ''dash.md'', sha256 = ''0a'', size_bytes = 60, git_commit = ''c'',
            evidence_group_id = ''dash'',
            backend = None, timestamp = None, shots = None, job_ids = None \<rparr>,
          \<lparr> entry_file = ''run.json'', sha256 = ''0b'', size_bytes = 27, git_commit = ''c'',
            evidence_group_id = ''run'',
            backend = None, timestamp = None, shots = None,
            job_ids = Some [''c0ffee1234567''] \<rparr>]
       - structured_ids
         [\<lparr> entry_file = ''dash.md'', sha256 = ''0a'', size_bytes = 60, git_commit = ''c'',
            evidence_group_id = ''dash'',
            backend = None, timestamp = None, shots = None, job_ids = None \<rparr>,
          \<lparr> entry_file = ''run.json'', sha256 = ''0b'', size_bytes = 27, git_commit = ''c'',
            evidence_group_id = ''run'',
            backend = None, timestamp = None, shots = None,
            job_ids = Some [''c0ffee1234567''] \<rparr>]
       = {''d0a1b2c3d4e5''}"
proof -
  let ?es = "[\<lparr> entry_file = ''dash.md'', sha256 = ''0a'', size_bytes = 60, git_commit = ''c'',
            evidence_group_id = ''dash'',
            backend = None, timestamp = None, shots = None, job_ids = None \<rparr>,
          \<lparr> entry_file = ''run.json'', sha256 = ''0b'', size_bytes = 27, git_commit = ''c'',
            evidence_group_id = ''run'',
            backend = None, timestamp = None, shots = None,
            job_ids = Some [''c0ffee1234567''] \<rparr>]"
  let ?m = "\<lparr> schema_version = 2, generated_utc = ''t'', manifest_git_commit = ''c'',
             evidence_sets = ?es \<rparr>"
  let ?rt = "\<lambda>f::string. ''Dashboard: jobs d0a1b2c3d4e5 and c0ffee1234567''"
  have m: "main_manifest ''t'' ''c''
     [\<lparr>parts = [''dash.md''], digest = ''0a'', byte_size = 60, loaded = None\<rparr>,
      \<lparr>parts = [''run.json''], digest = ''0b'', byte_size = 27,
       loaded = Some (JDict [(''job_id'', JStr ''c0ffee1234567'')])\<rparr>] = Inr ?m"
    by code_simp
  have v: "missing_in_json (write_warnings_md ?rt ?m) = [''d0a1b2c3d4e5'']"
    by code_simp
  have es: "evidence_sets ?m = ?es" by simp
  from mismatch_is_set_difference[OF m, of ?rt]
  have "set (missing_in_json (write_warnings_md ?rt ?m))
       = narrative_ids ?rt (evidence_sets ?m) - structured_ids (evidence_sets ?m)"
    by blast
  then have s: "narrative_ids ?rt ?es - structured_ids ?es = {''d0a1b2c3d4e5''}"
    by (simp only: v es list.set)
  from m v s show ?thesis by blast
qed

section \<open>Markdown files\<close>

lemma narrative_ids_intro:
  "e \<in> set es \<Longrightarrow> is_dashboard_entry rt e
   \<Longrightarrow> j \<in> set (extract_job_ids_from_text (rt (entry_file e))) \<Longrightarrow> j \<in> narrative_ids rt es"
  by (auto simp: narrative_ids_def)

lemma md_file_no_document: "suffix_lower p = ''.md'' \<Longrightarrow> load_obj p = None"
  by (simp add: load_obj_def)

text \<open>
  Claim C10: the record of a file named \<open>.md\<close> carries none of \<open>backend\<close>, \<open>shots\<close>,
  \<open>timestamp\<close> and \<open>job_ids\<close>, since \<open>main\<close> parses no such file. So, in the manifest
  \<open>main\<close> has built, an identifier of a narrative document that is in the \<open>job_ids\<close> of
  no \<open>.json\<close> file's record is in the mismatch list, whatever the markdown files mention.
\<close>

theorem markdown_records_bare:
  assumes "p \<in> set files" and "suffix_lower p = ''.md''"
    and "main_manifest g c files = Inr m"
  shows "build_entry p (load_obj p) c =
           Inr \<lparr> entry_file = rel_path (parts p), sha256 = digest p, size_bytes = byte_size p,
                 git_commit = c, evidence_group_id = stem p,
                 backend = None, timestamp = None, shots = None, job_ids = None \<rparr>
       \<and> (j \<in> narrative_ids rt (evidence_sets m)
           \<and> (\<forall>q\<in>set files. suffix_lower q = ''.json'' \<longrightarrow>
                 (\<forall>e. build_entry q (load_obj q) c = Inr e \<longrightarrow>
                    j \<notin> (case job_ids e of Some js \<Rightarrow> set js | None \<Rightarrow> {})))
          \<longrightarrow> j \<in> set (missing_in_json (write_warnings_md rt m)))"
proof -
  have bare: "\<And>q. suffix_lower q = ''.md'' \<Longrightarrow>
      build_entry q (load_obj q) c =
        Inr \<lparr> entry_file = rel_path (parts q), sha256 = digest q, size_bytes = byte_size q,
              git_commit = c, evidence_group_id = stem q,
              backend = None, timestamp = None, shots = None, job_ids = None \<rparr>"
    by (rule build_entry_no_document) (simp add: md_file_no_document)
  have flag: "j \<in> set (missing_in_json (write_warnings_md rt m))"
    if n: "j \<in> narrative_ids rt (evidence_sets m)"
      and h: "\<forall>q\<in>set files. suffix_lower q = ''.json'' \<longrightarrow>
                 (\<forall>e. build_entry q (load_obj q) c = Inr e \<longrightarrow>
                    j \<notin> (case job_ids e of Some js \<Rightarrow> set js | None \<Rightarrow> {}))"
  proof -
    have "j \<notin> structured_ids (evidence_sets m)"
    proof
      assume "j \<in> structured_ids (evidence_sets m)"
      then obtain e js where e: "e \<in> set (evidence_sets m)"
        and js: "job_ids e = Some js" "j \<in> set js"
        by (auto simp: structured_ids_mem)
      from e obtain q where q: "q \<in> set files" "suffix_lower q = ''.json'' \<or> suffix_lower q = ''.md''"
        and eq: "build_entry q (load_obj q) c = Inr e"
        by (auto simp: main_entries_iff[OF assms(3)])
      from q(2) show False
      proof
        assume "suffix_lower q = ''.json''"
        with h q(1) eq have "j \<notin> (case job_ids e of Some js \<Rightarrow> set js | None \<Rightarrow> {})"
          by blast
        with js show False by simp
      next
        assume "suffix_lower q = ''.md''"
        from bare[OF this] eq have "job_ids e = None" by auto
        with js(1) show False by simp
      qed
    qed
    with n show ?thesis by (simp add: mismatch_set_main[OF assms(3)])
  qed
  from bare[OF assms(2)] flag show ?thesis by blast
qed

theorem markdown_records_bare_witness:
  "suffix_lower \<lparr>parts = [''dash.md''], digest = ''0a'', byte_size = 30, loaded = None\<rparr> = ''.md''
   \<and> main_manifest ''t'' ''c''
       [\<lparr>parts = [''dash.md''], digest = ''0a'', byte_size = 30, loaded = None\<rparr>,
        \<lparr>parts = [''run.json''], digest = ''0b'', byte_size = 27,
        loaded = Some (JDict [(''job_id'', JStr ''c0ffee1234567'')])\<rparr>]
     = Inr \<lparr> schema_version = 2, generated_utc = ''t'', manifest_git_commit = ''c'',
         evidence_sets =
           [\<lparr> entry_file = ''dash.md'', sha256 = ''0a'', size_bytes = 30, git_commit = ''c'',
              evidence_group_id = ''dash'',
              backend = None, timestamp = None, shots = None, job_ids = None \<rparr>,
            \<lparr> entry_file = ''run.json'', sha256 = ''0b'', size_bytes = 27, git_commit = ''c'',
              evidence_group_id = ''run'',
              backend = None, timestamp = None, shots = None,
              job_ids = Some [''c0ffee1234567''] \<rparr>] \<rparr>
   \<and> build_entry \<lparr>parts = [''dash.md''], digest = ''0a'', byte_size = 30, loaded = None\<rparr>
        (load_obj \<lparr>parts = [''dash.md''], digest = ''0a'', byte_size = 30, loaded = None\<rparr>) ''c''
     = Inr \<lparr> entry_file = ''dash.md'', sha256 = ''0a'', size_bytes = 30, git_commit = ''c'',
            evidence_group_id = ''dash'',
            backend = None, timestamp = None, shots = None, job_ids = None \<rparr>
   \<and> ''d0a1b2c3d4e5'' \<in> set (missing_in_json
        (write_warnings_md (\<lambda>f. ''Dashboard: job d0a1b2c3d4e5'')
          \<lparr> schema_version = 2, generated_utc = ''t'', manifest_git_commit = ''c'',
         evidence_sets =
           [\<lparr> entry_file = ''dash.md'', sha256 = ''0a'', size_bytes = 30, git_commit = ''c'',
              evidence_group_id = ''dash'',
              backend = None, timestamp = None, shots = None, job_ids = None \<rparr>,
            \<lparr> entry_file = ''run.json'', sha256 = ''0b'', size_bytes = 27, git_commit = ''c'',
              evidence_group_id = ''run'',
              backend = None, timestamp = None, shots = None,
              job_ids = Some [''c0ffee1234567''] \<rparr>] \<rparr>))"
proof -
  let ?A = "\<lparr>parts = [''dash.md''], digest = ''0a'', byte_size = 30, loaded = None\<rparr>"
  let ?B = "\<lparr>parts = [''run.json''], digest = ''0b'', byte_size = 27,
        loaded = Some (JDict [(''job_id'', JStr ''c0ffee1234567'')])\<rparr>"
  let ?ed = "\<lparr> entry_file = ''dash.md'', sha256 = ''0a'', size_bytes = 30, git_commit = ''c'',
            evidence_group_id = ''dash'',
            backend = None, timestamp = None, shots = None, job_ids = None \<rparr>"
  let ?er = "\<lparr> entry_file = ''run.json'', sha256 = ''0b'', size_bytes = 27, git_commit = ''c'',
            evidence_group_id = ''run'',
            backend = None, timestamp = None, shots = None,
            job_ids = Some [''c0ffee1234567''] \<rparr>"
  let ?m = "\<lparr> schema_version = 2, generated_utc = ''t'', manifest_git_commit = ''c'',
              evidence_sets = [?ed, ?er] \<rparr>"
  let ?rt = "\<lambda>f::string. ''Dashboard: job d0a1b2c3d4e5''"
  let ?j = "''d0a1b2c3d4e5''"
  have a: "?A \<in> set [?A, ?B]" by simp
  have b: "suffix_lower ?A = ''.md''" by code_simp
  have m: "main_manifest ''t'' ''c'' [?A, ?B] = Inr ?m" by code_simp
  have r: "rel_path [''dash.md''] = ''dash.md''" by (simp add: rel_path_def)
  have s: "stem ?A = ''dash''" by code_simp
  have mem: "?ed \<in> set (evidence_sets ?m)" by simp
  have dash: "is_dashboard_entry ?rt ?ed" by code_simp
  have tok: "?j \<in> set (extract_job_ids_from_text (?rt (entry_file ?ed)))"
    by code_simp
  have n: "?j \<in> narrative_ids ?rt (evidence_sets ?m)"
    using mem dash tok by (rule narrative_ids_intro)
  have jb: "build_entry ?B (load_obj ?B) ''c'' = Inr ?er" by code_simp
  have nb: "suffix_lower ?A \<noteq> ''.json''" using b by simp
  have h: "\<forall>q\<in>set [?A, ?B]. suffix_lower q = ''.json'' \<longrightarrow>
      (\<forall>e. build_entry q (load_obj q) ''c'' = Inr e \<longrightarrow>
         ?j \<notin> (case job_ids e of Some js \<Rightarrow> set js | None \<Rightarrow> {}))"
    using nb jb by auto
  note t = markdown_records_bare[OF a b m, of ?j ?rt]
  from t have "build_entry ?A (load_obj ?A) ''c'' =
      Inr \<lparr> entry_file = rel_path (parts ?A), sha256 = digest ?A, size_bytes = byte_size ?A,
            git_commit = ''c'', evidence_group_id = stem ?A,
            backend = None, timestamp = None, shots = None, job_ids = None \<rparr>"
    by blast
  then have e: "build_entry ?A (load_obj ?A) ''c'' = Inr ?ed"
    by (simp only: r s evidence_file.simps)
  from t n h have f: "?j \<in> set (missing_in_json (write_warnings_md ?rt ?m))"
    by blast
  from b m e f show ?thesis by blast
qed

end
